theory Spec2Isabelle
  imports Complex_Main "HOL-Library.Log_Nat"
begin

section \<open>Dates\<close>

text \<open>
  A JavaScript \<open>Date\<close> is modelled by its time value: milliseconds since
  1970-01-01T00:00 in the local civil time of the server, for a time zone with a fixed
  offset (no daylight-saving change inside the span that is looked at). \<open>getDay\<close>,
  \<open>getDate\<close> and \<open>setDate\<close> follow ECMAScript: \<open>Day(t) = floor(t / msPerDay)\<close>,
  \<open>WeekDay(t) = (Day(t) + 4) mod 7\<close>, \<open>DateFromTime(t)\<close> is the day of the month, and
  \<open>setDate(dt)\<close> keeps year, month and time within the day and moves to day \<open>dt\<close> of that
  month, where a \<open>dt\<close> outside the month runs over into the neighbouring months.
\<close>

type_synonym date = int

definition msPerDay :: int where
  "msPerDay = 86400000"

definition Day :: "date \<Rightarrow> int" where
  "Day t = t div msPerDay"

definition TimeWithinDay :: "date \<Rightarrow> int" where
  "TimeWithinDay t = t mod msPerDay"

definition getDay :: "date \<Rightarrow> int" where
  "getDay t = (Day t + 4) mod 7"

text \<open>Day of the month of a day number (days since 1970-01-01), proleptic Gregorian.\<close>

definition DateFromDay :: "int \<Rightarrow> int" where
  "DateFromDay z =
     (let doe = (z + 719468) mod 146097;
          yoe = (doe - doe div 1460 + doe div 36524 - doe div 146096) div 365;
          doy = doe - (365 * yoe + yoe div 4 - yoe div 100);
          mp = (5 * doy + 2) div 153
      in doy - (153 * mp + 2) div 5 + 1)"

definition getDate :: "date \<Rightarrow> int" where
  "getDate t = DateFromDay (Day t)"

text \<open>
  \<open>setDate\<close>: day 1 of the month of \<open>t\<close> is day number \<open>Day t - (getDate t - 1)\<close>; the
  new day number is that plus \<open>dt - 1\<close>, and the time within the day is kept.
\<close>

definition setDate :: "date \<Rightarrow> int \<Rightarrow> date" where
  "setDate t dt = (Day t - (getDate t - 1) + (dt - 1)) * msPerDay + TimeWithinDay t"

text \<open>
  The time value of a \<open>Date\<close> lies within 8.64e15 ms of the epoch, counted in UTC; a
  \<open>setDate\<close> whose result would leave this range makes the \<open>Date\<close> an Invalid Date.
  The type \<open>date\<close> has only the time values, and \<open>setDate\<close> above is the date
  arithmetic before that check: it is the result of the code where the result is in
  range. \<open>inDateRange\<close> says so of a local time with one day to spare, which is enough
  for every offset a time zone can have.
\<close>

definition maxTime :: int where
  "maxTime = 8640000000000000"

definition inDateRange :: "int \<Rightarrow> bool" where
  "inDateRange t = (\<bar>t\<bar> + msPerDay \<le> maxTime)"

section \<open>JavaScript numbers that come out of a division\<close>

text \<open>
  The two rates of the activity record are computed in double precision: a quotient of
  two array lengths, rounded, times 100, rounded again. A finite double is kept as the
  rational number it denotes. \<open>round53\<close> is the rounding of IEEE 754 binary64 to the
  nearest value, ties to the even significand: with \<open>expo x\<close> the exponent of \<open>x\<close>
  (\<open>2 ^ expo x \<le> |x| < 2 ^ (expo x + 1)\<close>), the doubles around \<open>x\<close> are the multiples of
  \<open>2 ^ (expo x - 52)\<close>, and \<open>x\<close> goes to the nearest of them. The exponent range of
  binary64 (from \<open>2 ^ -1022\<close> to \<open>2 ^ 1023\<close>) is not modelled: the operands are lengths
  of arrays, below \<open>2 ^ 32\<close> and exact as doubles, and the factor is 100, so a quotient
  that is not 0 and its product lie between \<open>2 ^ -32\<close> and \<open>2 ^ 39\<close>. A division by
  zero is not an exception in JavaScript but gives \<open>NaN\<close> (for \<open>0 / 0\<close>) or
  \<open>Infinity\<close>.
\<close>

definition expo :: "rat \<Rightarrow> int" where
  "expo x =
     (let k = bitlen (fst (quotient_of \<bar>x\<bar>)) - bitlen (snd (quotient_of \<bar>x\<bar>))
      in if 2 powi k \<le> \<bar>x\<bar> then k else k - 1)"

definition roundTiesToEven :: "rat \<Rightarrow> int" where
  "roundTiesToEven y =
     (let f = \<lfloor>y\<rfloor>; d = y - of_int f
      in if d < 1 / 2 then f else if 1 / 2 < d then f + 1 else if even f then f else f + 1)"

definition round53 :: "rat \<Rightarrow> rat" where
  "round53 x = (if x = 0 then 0
                else let ulp = 2 powi (expo x - 52) in of_int (roundTiesToEven (x / ulp)) * ulp)"

text \<open>
  The same rounding to an integer, of a quotient \<open>n / d\<close> of integers with \<open>0 < d\<close>, by
  division with remainder; the concrete values below are computed with it.
\<close>

definition roundRatio :: "int \<Rightarrow> int \<Rightarrow> int" where
  "roundRatio n d =
     (let q = n div d; r = n mod d
      in if 2 * r < d then q else if d < 2 * r then q + 1 else if even q then q else q + 1)"

datatype jsnumber = Num rat | NaN | Infinity

definition js_div :: "nat \<Rightarrow> nat \<Rightarrow> jsnumber" where
  "js_div a b = (if b = 0 then (if a = 0 then NaN else Infinity)
                 else Num (round53 (of_nat a / of_nat b)))"

fun js_times :: "jsnumber \<Rightarrow> nat \<Rightarrow> jsnumber" where
  "js_times (Num x) c = Num (round53 (x * of_nat c))"
| "js_times NaN c = NaN"
| "js_times Infinity c = (if c = 0 then NaN else Infinity)"

section \<open>The activity record (model ActivityTracker)\<close>

text \<open>
  The columns of the model; \<open>pk\<close> is the column \<open>id\<close> and \<open>notes_txt\<close> the column
  \<open>notes\<close>. The attendance and the submission timestamp may be \<open>null\<close>. The task
  columns are strings, compared with \<open>===\<close> as the methods do.
\<close>

record ActivityTracker =
  pk :: int
  allocationId :: int
  facilitatorId :: int
  weekNumber :: int
  attendance :: "bool list option"
  formativeOneGrading :: string
  formativeTwoGrading :: string
  summativeGrading :: string
  courseModeration :: string
  intranetSync :: string
  gradeBookStatus :: string
  notes_txt :: "string option"
  submittedAt :: "date option"
  createdAt :: date
  updatedAt :: date

record progress =
  completed :: nat
  pending :: nat
  notStarted :: nat
  total :: nat
  completionPercentage :: jsnumber

definition tasks :: "'a ActivityTracker_scheme \<Rightarrow> string list" where
  "tasks r = [formativeOneGrading r, formativeTwoGrading r, summativeGrading r,
              courseModeration r, intranetSync r, gradeBookStatus r]"

definition getOverallProgress :: "'a ActivityTracker_scheme \<Rightarrow> progress" where
  "getOverallProgress r =
     (let completed = length (filter (\<lambda>task. task = ''Done'') (tasks r));
          pending = length (filter (\<lambda>task. task = ''Pending'') (tasks r));
          notStarted = length (filter (\<lambda>task. task = ''Not Started'') (tasks r))
      in \<lparr> completed = completed, pending = pending, notStarted = notStarted,
           total = length (tasks r),
           completionPercentage = js_times (js_div completed (length (tasks r))) 100 \<rparr>)"

definition getAttendanceRate :: "'a ActivityTracker_scheme \<Rightarrow> jsnumber" where
  "getAttendanceRate r =
     (case attendance r of
        None \<Rightarrow> Num 0
      | Some a \<Rightarrow>
          if length a = 0 then Num 0
          else let presentDays = length (filter (\<lambda>day. day = True) a)
               in js_times (js_div presentDays (length a)) 100)"

text \<open>
  \<open>isOverdue\<close> reads the clock twice: \<open>t1\<close> is the \<open>new Date()\<close> the week start is
  computed from, \<open>t2\<close> the later \<open>new Date()\<close> that is compared with the deadline.
\<close>

definition isOverdue :: "date \<Rightarrow> date \<Rightarrow> 'a ActivityTracker_scheme \<Rightarrow> bool" where
  "isOverdue t1 t2 r =
     (case submittedAt r of
        Some s \<Rightarrow> False
      | None \<Rightarrow>
          let weekStart = setDate t1 (getDate t1 - getDay t1 + (weekNumber r - 1) * 7);
              deadline = setDate weekStart (getDate weekStart + 9)
          in t2 > deadline)"

definition getDeadline :: "date \<Rightarrow> 'a ActivityTracker_scheme \<Rightarrow> date" where
  "getDeadline now r =
     (let weekStart = setDate now (getDate now - getDay now + (weekNumber r - 1) * 7);
          deadline = setDate weekStart (getDate weekStart + 9)
      in deadline)"

definition submit_field :: "date \<Rightarrow> 'a ActivityTracker_scheme \<Rightarrow> 'a ActivityTracker_scheme" where
  "submit_field now r = r\<lparr>submittedAt := Some now\<rparr>"

text \<open>
  A record as \<open>ActivityTracker.create\<close> makes it from the required fields, every other
  column at the default the model declares.
\<close>

definition newActivity :: "int \<Rightarrow> int \<Rightarrow> int \<Rightarrow> int \<Rightarrow> date \<Rightarrow> ActivityTracker" where
  "newActivity k alloc fac week now =
     \<lparr> pk = k, allocationId = alloc, facilitatorId = fac, weekNumber = week,
       attendance = Some [False, False, False, False, False],
       formativeOneGrading = ''Not Started'', formativeTwoGrading = ''Not Started'',
       summativeGrading = ''Not Started'', courseModeration = ''Not Started'',
       intranetSync = ''Not Started'', gradeBookStatus = ''Not Started'',
       notes_txt = None, submittedAt = None, createdAt = now, updatedAt = now \<rparr>"

section \<open>The relational store\<close>

text \<open>
  The tables the claims read, each a list of rows with the columns that are used; an
  association that a query includes (\<open>user\<close> of a manager or a facilitator, \<open>module\<close> of
  a course offering) is a field of the row. \<open>findByPk\<close> is the first row with the key,
  or \<open>null\<close>; \<open>findAll\<close> with a \<open>where\<close> is the filter of the table.
\<close>

record User =
  email :: string
  firstName :: string
  lastName :: string
  isActive :: bool

record Manager =
  manager_pk :: int
  user :: User

record Facilitator =
  facilitator_pk :: int
  fuser :: User

record Module =
  mcode :: string
  mname :: string

record CourseOffering =
  offering_pk :: int
  cmodule :: Module

record db =
  activities :: "ActivityTracker list"
  managers :: "Manager list"
  facilitators :: "Facilitator list"
  courseOfferings :: "CourseOffering list"

definition User_getFullName :: "User \<Rightarrow> string" where
  "User_getFullName u = firstName u @ '' '' @ lastName u"

definition Module_getFullName :: "Module \<Rightarrow> string" where
  "Module_getFullName m = mcode m @ '' - '' @ mname m"

definition findByPk :: "('r \<Rightarrow> int) \<Rightarrow> 'r list \<Rightarrow> int \<Rightarrow> 'r option" where
  "findByPk key rows k = find (\<lambda>x. key x = k) rows"

text \<open>
  \<open>save\<close> writes the instance over the row with its primary key; the ORM stamps
  \<open>updatedAt\<close> with its own clock reading \<open>tsave\<close> (the model has \<open>timestamps: true\<close>).
\<close>

definition save :: "date \<Rightarrow> ActivityTracker \<Rightarrow> db \<Rightarrow> ActivityTracker \<times> db" where
  "save tsave r d =
     (let r' = r\<lparr>updatedAt := tsave\<rparr>
      in (r', d\<lparr>activities := map (\<lambda>x. if pk x = pk r then r' else x) (activities d)\<rparr>))"

definition submit :: "date \<Rightarrow> date \<Rightarrow> ActivityTracker \<Rightarrow> db \<Rightarrow> ActivityTracker \<times> db" where
  "submit now tsave r d = save tsave (submit_field now r) d"

definition findOverdue :: "date \<Rightarrow> db \<Rightarrow> ActivityTracker list" where
  "findOverdue now d =
     (let twoWeeksAgo = setDate now (getDate now - 16)
      in filter (\<lambda>r. submittedAt r = None \<and> createdAt r < twoWeeksAgo) (activities d))"

section \<open>The notification service\<close>

subsection \<open>Job payloads\<close>

text \<open>
  The data of an alert is an object; its fields are read by name, and a field that is
  not there reads as \<open>undefined\<close>.
\<close>

datatype jsvalue = Undefined | StrV string | NumV int | DateV date

type_synonym alert_data = "(string \<times> jsvalue) list"

definition field :: "alert_data \<Rightarrow> string \<Rightarrow> jsvalue" where
  "field data k = (case map_of data k of Some v \<Rightarrow> v | None \<Rightarrow> Undefined)"

text \<open>
  The text of a template literal: literal pieces and interpolated values, in order.
\<close>

datatype piece = Lit string | Interp jsvalue

definition nl :: string where
  "nl = [CHR 0x0A]"

text \<open>
  The templates of the service all have one shape: a line break after the opening
  backquote, every line indented by four blanks, the closing backquote after two.
\<close>

definition template :: "piece list list \<Rightarrow> piece list" where
  "template ls = concat (map (\<lambda>l. Lit (nl @ ''    '') # l) ls) @ [Lit (nl @ ''  '')]"

definition generateOverdueAlert :: "alert_data \<Rightarrow> piece list" where
  "generateOverdueAlert data = template
     [[Lit ''Alert: Overdue Activity Log Submissions''],
      [],
      [Lit ''There are '', Interp (field data ''count''),
       Lit '' overdue activity log submissions from '', Interp (field data ''facilitators''),
       Lit '' facilitator(s).''],
      [],
      [Lit ''Please follow up with the respective facilitators to ensure compliance with reporting requirements.''],
      [],
      [Lit ''You can view detailed information in the Course Management System dashboard.''],
      [],
      [Lit ''Best regards,''],
      [Lit ''Course Management System'']]"

definition generateLateSubmissionAlert :: "alert_data \<Rightarrow> piece list" where
  "generateLateSubmissionAlert data = template
     [[Lit ''Alert: Late Activity Log Submission''],
      [],
      [Lit ''An activity log has been submitted after the deadline:''],
      [],
      [Lit ''Facilitator: '', Interp (field data ''facilitatorName'')],
      [Lit ''Course: '', Interp (field data ''courseName'')],
      [Lit ''Week: '', Interp (field data ''weekNumber'')],
      [Lit ''Submitted: '', Interp (field data ''submissionTime'')],
      [],
      [Lit ''Please review the submission and take appropriate action if necessary.''],
      [],
      [Lit ''Best regards,''],
      [Lit ''Course Management System'']]"

definition generateCriticalDeadlineAlert :: "alert_data \<Rightarrow> piece list" where
  "generateCriticalDeadlineAlert data = template
     [[Lit ''Alert: Critical Deadline Approaching''],
      [],
      [Interp (field data ''count''), Lit '' activity log submissions are due within '',
       Interp (field data ''deadline''), Lit ''.''],
      [],
      [Lit ''Please ensure facilitators are aware of upcoming deadlines.''],
      [],
      [Lit ''Best regards,''],
      [Lit ''Course Management System'']]"

text \<open>
  The data of a \<open>send-email\<close> job (\<open>to\<close>, \<open>subject\<close>, \<open>text\<close>, \<open>html\<close>, \<open>type\<close>) and
  of a \<open>manager-alert\<close> job (\<open>type\<close>, \<open>data\<close>), the options of a job, and a job on a
  queue (name, data, options).
\<close>

record email_data =
  to_addr :: string
  subject :: string
  text_body :: "piece list"
  html :: "piece list option"
  mail_type :: "string option"

record alert_payload =
  alert_type :: string
  alert_data :: alert_data

record job_options =
  delay :: nat
  attempts :: nat
  backoff :: "(string \<times> nat) option"
  removeOnComplete :: nat
  removeOnFail :: nat

record 'd job =
  jname :: string
  jdata :: 'd
  jopts :: job_options

subsection \<open>The notification log\<close>

record notification =
  ntype :: string
  recipient :: string
  nsubject :: string
  nstatus :: string
  messageId :: "string option"
  nerror :: "string option"
  emailType :: "string option"
  alertType :: "string option"
  ndata :: "alert_data option"

record log_entry =
  entry :: notification
  timestamp :: date

record queues =
  emailQueue :: "email_data job list"
  alertQueue :: "alert_payload job list"
  notification_log :: "log_entry list"
  recent_notifications :: "log_entry list"

text \<open>
  The Redis list commands. \<open>LPUSH\<close> puts the value at the head. \<open>LRANGE\<close> takes the
  elements from index \<open>start\<close> to index \<open>stop\<close>, both included, a negative index
  counting from the tail (\<open>-1\<close> is the last element) and an index beyond the end being
  cut to the end; \<open>LTRIM\<close> keeps exactly that range.
\<close>

definition lPush :: "'a list \<Rightarrow> 'a \<Rightarrow> 'a list" where
  "lPush xs v = v # xs"

definition lRange :: "'a list \<Rightarrow> int \<Rightarrow> int \<Rightarrow> 'a list" where
  "lRange xs start stop =
     (let n = int (length xs);
          s = (if start < 0 then max 0 (n + start) else start);
          e = (if stop < 0 then n + stop else min stop (n - 1))
      in if s > e \<or> s \<ge> n then [] else take (nat (e - s + 1)) (drop (nat s) xs))"

definition lTrim :: "'a list \<Rightarrow> int \<Rightarrow> int \<Rightarrow> 'a list" where
  "lTrim xs start stop = lRange xs start stop"

text \<open>
  \<open>logNotification\<close> stores the entry under a key of its own (time and a random
  suffix; \<open>notification_log\<close> is the sequence of these writes, newest first) and pushes
  it on the list of recent notifications, which it trims to 100.
\<close>

definition logNotification :: "date \<Rightarrow> notification \<Rightarrow> queues \<Rightarrow> queues" where
  "logNotification now notificationData q =
     (let logData = \<lparr> entry = notificationData, timestamp = now \<rparr>
      in q\<lparr> notification_log := logData # notification_log q,
            recent_notifications := lTrim (lPush (recent_notifications q) logData) 0 99 \<rparr>)"

definition getRecentNotifications :: "int \<Rightarrow> queues \<Rightarrow> log_entry list" where
  "getRecentNotifications limit q = lRange (recent_notifications q) 0 (limit - 1)"

subsection \<open>Enqueueing\<close>

record email_options =
  opt_delay :: "nat option"
  opt_attempts :: "nat option"

text \<open>\<open>x || d\<close> on an optional number: \<open>undefined\<close> and \<open>0\<close> are falsy.\<close>

definition js_or :: "nat option \<Rightarrow> nat \<Rightarrow> nat" where
  "js_or x d = (case x of None \<Rightarrow> d | Some v \<Rightarrow> if v = 0 then d else v)"

definition queueEmail :: "email_data \<Rightarrow> email_options \<Rightarrow> queues \<Rightarrow> queues" where
  "queueEmail emailData options q =
     (let jobOptions = \<lparr> delay = js_or (opt_delay options) 0,
                          attempts = js_or (opt_attempts options) 3,
                          backoff = Some (''exponential'', 2000),
                          removeOnComplete = 10, removeOnFail = 5 \<rparr>
      in q\<lparr> emailQueue := emailQueue q @
             [\<lparr> jname = ''send-email'', jdata = emailData, jopts = jobOptions \<rparr>] \<rparr>)"

definition no_options :: email_options where
  "no_options = \<lparr> opt_delay = None, opt_attempts = None \<rparr>"

definition queueManagerAlert :: "string \<Rightarrow> alert_data \<Rightarrow> nat \<Rightarrow> queues \<Rightarrow> queues" where
  "queueManagerAlert type data dly q =
     (let jobOptions = \<lparr> delay = dly, attempts = 2, backoff = None,
                          removeOnComplete = 5, removeOnFail = 3 \<rparr>
      in q\<lparr> alertQueue := alertQueue q @
             [\<lparr> jname = ''manager-alert'',
                jdata = \<lparr> alert_type = type, alert_data = data \<rparr>,
                jopts = jobOptions \<rparr>] \<rparr>)"

subsection \<open>The processor of the email queue\<close>

record mail_options =
  mail_from :: string
  mail_to :: string
  mail_subject :: string
  mail_text :: "piece list"
  mail_html :: "piece list"

text \<open>
  The transport's \<open>sendMail\<close>: \<open>Inr\<close> the message id of the provider, \<open>Inl\<close> the message
  of the error it throws.
\<close>

type_synonym transport = "mail_options \<Rightarrow> string + string"

definition emailNotification ::
  "email_data \<Rightarrow> string \<Rightarrow> string option \<Rightarrow> string option \<Rightarrow> notification" where
  "emailNotification d st mid err =
     \<lparr> ntype = ''email'', recipient = to_addr d, nsubject = subject d, nstatus = st,
       messageId = mid, nerror = err, emailType = mail_type d, alertType = None,
       ndata = None \<rparr>"

text \<open>
  The message handed to the transport; \<open>smtp_from\<close> is the environment's \<open>SMTP_FROM\<close>.
\<close>

definition mailOptions :: "string option \<Rightarrow> email_data \<Rightarrow> mail_options" where
  "mailOptions smtp_from d =
     \<lparr> mail_from = (case smtp_from of None \<Rightarrow> ''noreply@coursemanagement.com''
                     | Some f \<Rightarrow> if f = [] then ''noreply@coursemanagement.com'' else f),
       mail_to = to_addr d, mail_subject = subject d, mail_text = text_body d,
       mail_html = (case html d of None \<Rightarrow> text_body d
                     | Some h \<Rightarrow> if h = [] then text_body d else h) \<rparr>"

text \<open>
  One run of the \<open>send-email\<close> processor on a job, \<open>now\<close> the time of the log entry.
  On \<open>Inl\<close> the processor has thrown the transport's error again, after logging it.
\<close>

definition emailProcessor ::
  "string option \<Rightarrow> transport \<Rightarrow> date \<Rightarrow> email_data job \<Rightarrow> queues \<Rightarrow> queues \<times> (string + string)" where
  "emailProcessor smtp_from sendMail now jb q =
     (let d = jdata jb
      in case sendMail (mailOptions smtp_from d) of
           Inr mid \<Rightarrow> (logNotification now (emailNotification d ''sent'' (Some mid) None) q, Inr mid)
         | Inl err \<Rightarrow> (logNotification now (emailNotification d ''failed'' None (Some err)) q, Inl err))"

subsection \<open>The queue's retry machinery\<close>

datatype job_state = Completed | Failed

text \<open>
  Modelled from the spec: the retry machinery of the queue library, which is not part of
  the repository. "Each queue job independently retries up to its configured
  \<open>attempts\<close> with exponential backoff; after exhaustion the job is marked failed";
  "on transport failure, throws so the queue's retry machinery re-attempts per the job's
  backoff policy"; "attempt N+1 strictly follows attempt N". The run of a job calls the
  processor; a return completes the job, a throw counts one attempt made and, while the
  attempts made are fewer than the job's \<open>attempts\<close>, the processor is called again.
  \<open>made\<close> counts the attempts made before this one, \<open>left\<close> the attempts that may
  follow this one; \<open>sendMail k\<close> and \<open>clock k\<close> are the transport and the time at
  attempt \<open>k\<close> (counted from 0). The result is the state of the service, the terminal
  state of the job and the number of times the processor ran.
\<close>

fun runEmailAttempts ::
  "string option \<Rightarrow> (nat \<Rightarrow> transport) \<Rightarrow> (nat \<Rightarrow> date) \<Rightarrow> email_data job \<Rightarrow> nat \<Rightarrow> nat \<Rightarrow> queues
     \<Rightarrow> queues \<times> job_state \<times> nat" where
  "runEmailAttempts env sendMail clock jb made 0 q =
     (case emailProcessor env (sendMail made) (clock made) jb q of
        (q', Inr r) \<Rightarrow> (q', Completed, Suc made)
      | (q', Inl e) \<Rightarrow> (q', Failed, Suc made))"
| "runEmailAttempts env sendMail clock jb made (Suc left) q =
     (case emailProcessor env (sendMail made) (clock made) jb q of
        (q', Inr r) \<Rightarrow> (q', Completed, Suc made)
      | (q', Inl e) \<Rightarrow> runEmailAttempts env sendMail clock jb (Suc made) left q')"

definition runEmailJob ::
  "string option \<Rightarrow> (nat \<Rightarrow> transport) \<Rightarrow> (nat \<Rightarrow> date) \<Rightarrow> email_data job \<Rightarrow> queues
     \<Rightarrow> queues \<times> job_state \<times> nat" where
  "runEmailJob env sendMail clock jb q =
     runEmailAttempts env sendMail clock jb 0 (attempts (jopts jb) - 1) q"

text \<open>The log entries of a given status that the service has written.\<close>

definition logged :: "string \<Rightarrow> queues \<Rightarrow> log_entry list" where
  "logged st q = filter (\<lambda>e. nstatus (entry e) = st) (notification_log q)"

subsection \<open>The processor of the alert queue\<close>

text \<open>The \<open>switch\<close> on the alert type: subject and text, \<open>None\<close> for \<open>default: continue\<close>.\<close>

definition alertMessage :: "string \<Rightarrow> alert_data \<Rightarrow> (string \<times> piece list) option" where
  "alertMessage type data =
     (if type = ''overdue-submission''
        then Some (''Overdue Activity Log Submission Alert'', generateOverdueAlert data)
      else if type = ''late-submission''
        then Some (''Late Activity Log Submission Alert'', generateLateSubmissionAlert data)
      else if type = ''critical-deadline''
        then Some (''Critical Deadline Alert'', generateCriticalDeadlineAlert data)
      else None)"

definition alertEmail :: "Manager \<Rightarrow> string \<Rightarrow> piece list \<Rightarrow> email_data" where
  "alertEmail manager subj txt =
     \<lparr> to_addr = email (user manager), subject = subj, text_body = txt, html = None,
       mail_type = Some ''alert'' \<rparr>"

fun alertLoop :: "string \<Rightarrow> alert_data \<Rightarrow> Manager list \<Rightarrow> queues \<Rightarrow> queues" where
  "alertLoop type data [] q = q"
| "alertLoop type data (manager # rest) q =
     (case alertMessage type data of
        None \<Rightarrow> alertLoop type data rest q
      | Some (subj, txt) \<Rightarrow>
          alertLoop type data rest (queueEmail (alertEmail manager subj txt) no_options q))"

definition alertProcessor :: "date \<Rightarrow> alert_payload job \<Rightarrow> db \<Rightarrow> queues \<Rightarrow> queues \<times> (string + bool)" where
  "alertProcessor now jb d q =
     (let type = alert_type (jdata jb);
          data = alert_data (jdata jb);
          found = filter (\<lambda>m. isActive (user m)) (managers d);
          q1 = alertLoop type data found q;
          q2 = logNotification now
                 \<lparr> ntype = ''alert'', recipient = ''all-managers'', nsubject = type @ '' alert'',
                   nstatus = ''queued'', messageId = None, nerror = None, emailType = None,
                   alertType = Some type, ndata = Some data \<rparr> q1
      in (q2, Inr True))"

section \<open>The submit endpoint\<close>

record request =
  user_role :: string
  facilitatorProfile :: "int option"
  params_id :: int

record response =
  status :: nat
  message :: string
  body_data :: "ActivityTracker option"

fun join :: "string list \<Rightarrow> string \<Rightarrow> string" where
  "join [] sep = []"
| "join [x] sep = x"
| "join (x # y # ys) sep = x @ sep @ join (y # ys) sep"

text \<open>
  The middleware \<open>authorize(['facilitator', 'manager'])\<close> on a request that
  \<open>authenticate\<close> has let through: \<open>Some\<close> the refusal, \<open>None\<close> for \<open>next()\<close>.
\<close>

definition authorize :: "string list \<Rightarrow> request \<Rightarrow> response option" where
  "authorize allowedRoles req =
     (if user_role req \<notin> set allowedRoles
      then Some \<lparr> status = 403,
                  message = ''Access denied. Required role(s): '' @
                            join allowedRoles '', '' @
                            ''. Your role: '' @ user_role req,
                  body_data = None \<rparr>
      else None)"

text \<open>
  The access check of the handler. Reading \<open>id\<close> of a missing facilitator profile
  throws (\<open>Inl\<close>); \<open>Inr True\<close> is the refusal.
\<close>

definition notOwner :: "request \<Rightarrow> ActivityTracker \<Rightarrow> string + bool" where
  "notOwner req activity =
     (if user_role req = ''facilitator''
      then (case facilitatorProfile req of
              None \<Rightarrow> Inl ''TypeError''
            | Some p \<Rightarrow> Inr (facilitatorId activity \<noteq> p))
      else Inr False)"

definition submitted_response :: "request \<Rightarrow> db \<Rightarrow> response" where
  "submitted_response req d =
     \<lparr> status = 200, message = ''Activity log submitted successfully'',
       body_data = findByPk pk (activities d) (params_id req) \<rparr>"

text \<open>
  The handler of \<open>PATCH /:id/submit\<close>. \<open>now\<close> is the clock reading of \<open>submit\<close>,
  \<open>tsave\<close> that of the save, \<open>t1\<close> and \<open>t2\<close> are the two readings of \<open>isOverdue\<close>.
  \<open>Inl\<close> is an error thrown in the handler, which the error middleware answers.
\<close>

definition submitHandler ::
  "request \<Rightarrow> date \<Rightarrow> date \<Rightarrow> date \<Rightarrow> date \<Rightarrow> db \<Rightarrow> queues \<Rightarrow> (string + response) \<times> db \<times> queues" where
  "submitHandler req now tsave t1 t2 d q =
     (case findByPk pk (activities d) (params_id req) of
        None \<Rightarrow> (Inr \<lparr> status = 404, message = ''Activity log not found'', body_data = None \<rparr>, d, q)
      | Some activity \<Rightarrow>
          (case notOwner req activity of
             Inl err \<Rightarrow> (Inl err, d, q)
           | Inr True \<Rightarrow>
               (Inr \<lparr> status = 403, message = ''You can only submit your own activity logs'',
                      body_data = None \<rparr>, d, q)
           | Inr False \<Rightarrow>
               (case submittedAt activity of
                  Some s \<Rightarrow>
                    (Inr \<lparr> status = 400, message = ''Activity log has already been submitted'',
                           body_data = None \<rparr>, d, q)
                | None \<Rightarrow>
                    (case submit now tsave activity d of
                       (activity', d') \<Rightarrow>
                         if isOverdue t1 t2 activity' then
                           (case (findByPk facilitator_pk (facilitators d') (facilitatorId activity'),
                                  findByPk offering_pk (courseOfferings d') (allocationId activity')) of
                              (Some facilitator, Some allocation) \<Rightarrow>
                                (Inr (submitted_response req d'), d',
                                 queueManagerAlert ''late-submission''
                                   [(''facilitatorName'', StrV (User_getFullName (fuser facilitator))),
                                    (''courseName'', StrV (Module_getFullName (cmodule allocation))),
                                    (''weekNumber'', NumV (weekNumber activity')),
                                    (''submissionTime'',
                                       (case submittedAt activity' of
                                          Some s \<Rightarrow> DateV s | None \<Rightarrow> Undefined))]
                                   0 q)
                            | _ \<Rightarrow> (Inl ''TypeError'', d', q))
                         else (Inr (submitted_response req d'), d', q)))))"

definition submitRoute ::
  "request \<Rightarrow> date \<Rightarrow> date \<Rightarrow> date \<Rightarrow> date \<Rightarrow> db \<Rightarrow> queues \<Rightarrow> (string + response) \<times> db \<times> queues" where
  "submitRoute req now tsave t1 t2 d q =
     (case authorize [''facilitator'', ''manager''] req of
        Some refusal \<Rightarrow> (Inr refusal, d, q)
      | None \<Rightarrow> submitHandler req now tsave t1 t2 d q)"

section \<open>Runs and sample data\<close>

text \<open>
  A sequence of calls of \<open>logNotification\<close>, the first of the list first: each element
  is the time of the call and the notification logged.
\<close>

fun logAll :: "(date \<times> notification) list \<Rightarrow> queues \<Rightarrow> queues" where
  "logAll [] q = q"
| "logAll ((now, notificationData) # rest) q = logAll rest (logNotification now notificationData q)"

definition stamped :: "date \<times> notification \<Rightarrow> log_entry" where
  "stamped w = \<lparr> entry = snd w, timestamp = fst w \<rparr>"

text \<open>The job as \<open>queueEmail\<close> leaves it at the tail of the email queue.\<close>

definition emailJob :: "email_data \<Rightarrow> email_options \<Rightarrow> email_data job" where
  "emailJob emailData options =
     \<lparr> jname = ''send-email'', jdata = emailData,
       jopts = \<lparr> delay = js_or (opt_delay options) 0,
                 attempts = js_or (opt_attempts options) 3,
                 backoff = Some (''exponential'', 2000),
                 removeOnComplete = 10, removeOnFail = 5 \<rparr> \<rparr>"

definition emptyQueues :: queues where
  "emptyQueues = \<lparr> emailQueue = [], alertQueue = [], notification_log = [],
                    recent_notifications = [] \<rparr>"

definition sampleMail :: email_data where
  "sampleMail = \<lparr> to_addr = ''f@example.org'', subject = ''Activity Log Submission Reminder'',
                   text_body = [Lit ''Dear facilitator''], html = None,
                   mail_type = Some ''reminder'' \<rparr>"

definition sampleUser :: "string \<Rightarrow> bool \<Rightarrow> User" where
  "sampleUser mail active =
     \<lparr> email = mail, firstName = ''Ada'', lastName = ''Lovelace'', isActive = active \<rparr>"

text \<open>Four managers, the third of them inactive.\<close>

definition sampleDb :: "ActivityTracker list \<Rightarrow> db" where
  "sampleDb acts =
     \<lparr> activities = acts,
       managers = [\<lparr> manager_pk = 1, user = sampleUser ''m1@example.org'' True \<rparr>,
                   \<lparr> manager_pk = 2, user = sampleUser ''m2@example.org'' True \<rparr>,
                   \<lparr> manager_pk = 3, user = sampleUser ''m3@example.org'' False \<rparr>,
                   \<lparr> manager_pk = 4, user = sampleUser ''m4@example.org'' True \<rparr>],
       facilitators = [\<lparr> facilitator_pk = 7, fuser = sampleUser ''f@example.org'' True \<rparr>],
       courseOfferings = [\<lparr> offering_pk = 42,
                            cmodule = \<lparr> mcode = ''CS101'', mname = ''Programming'' \<rparr> \<rparr>] \<rparr>"

section \<open>The deadline as the specification words it\<close>

text \<open>
  This definition follows the words of the specification, not the code: the deadline of
  week \<open>w\<close> is the start of the current calendar week (the Sunday of the week of
  \<open>now\<close>), shifted back by \<open>w - 1\<close> weeks, plus 9 days. It is compared with
  \<open>getDeadline\<close> below.
\<close>

definition spec_deadline :: "date \<Rightarrow> int \<Rightarrow> date" where
  "spec_deadline now w =
     (now - getDay now * msPerDay) - (w - 1) * (7 * msPerDay) + 9 * msPerDay"

section \<open>Properties\<close>

lemma setDate_getDate_shift: "setDate t (getDate t + k) = t + k * msPerDay"
proof -
  have "setDate t (getDate t + k) = (Day t + k) * msPerDay + TimeWithinDay t"
    by (simp add: setDate_def)
  also have "\<dots> = Day t * msPerDay + TimeWithinDay t + k * msPerDay"
    by (simp add: algebra_simps)
  also have "Day t * msPerDay + TimeWithinDay t = t"
    by (simp add: Day_def TimeWithinDay_def)
  finally show ?thesis .
qed

subsection \<open>Date arithmetic\<close>

lemma getDay_range: "0 \<le> getDay t \<and> getDay t < 7"
  by (simp add: getDay_def)

lemma getDay_shift: "getDay (t + k * msPerDay) = (getDay t + k) mod 7"
proof -
  have "Day (t + k * msPerDay) = Day t + k"
    by (simp add: Day_def msPerDay_def)
  then show ?thesis
    by (simp add: getDay_def mod_simps algebra_simps)
qed

lemma getDeadline_eq:
  "getDeadline now r = now + (9 + 7 * (weekNumber r - 1) - getDay now) * msPerDay"
proof -
  let ?k = "(weekNumber r - 1) * 7 - getDay now"
  let ?weekStart = "setDate now (getDate now - getDay now + (weekNumber r - 1) * 7)"
  have "getDate now - getDay now + (weekNumber r - 1) * 7 = getDate now + ?k"
    by simp
  then have "?weekStart = now + ?k * msPerDay"
    by (simp only: setDate_getDate_shift)
  moreover have "getDeadline now r = ?weekStart + 9 * msPerDay"
    by (simp only: getDeadline_def Let_def setDate_getDate_shift)
  ultimately show ?thesis
    by (simp add: algebra_simps)
qed

subsection \<open>C2: the deadline of a week\<close>

text \<open>
  C2, as the code has it. For every week number for which the week start and the
  deadline lie in the range of a \<open>Date\<close> (which they do for every week number up to
  about 14 million in magnitude; beyond the range the code has an Invalid Date),
  \<open>getDeadline\<close> returns the Sunday of the current calendar week, at the time of day of
  the call, shifted \<^emph>\<open>forward\<close> by \<open>weekNumber - 1\<close> weeks, plus 9 days. The term
  \<open>now - getDay now * msPerDay\<close> is that Sunday: its weekday is 0, its time within the
  day is that of \<open>now\<close>, and it lies at most six days before \<open>now\<close>.
\<close>

theorem getDeadline_shifts_forward:
  assumes "inDateRange ((now - getDay now * msPerDay) + (weekNumber r - 1) * (7 * msPerDay))"
    and "inDateRange ((now - getDay now * msPerDay) + (weekNumber r - 1) * (7 * msPerDay)
                       + 9 * msPerDay)"
  shows "getDeadline now r
     = (now - getDay now * msPerDay) + (weekNumber r - 1) * (7 * msPerDay) + 9 * msPerDay
   \<and> getDay (now - getDay now * msPerDay) = 0
   \<and> TimeWithinDay (now - getDay now * msPerDay) = TimeWithinDay now
   \<and> 0 \<le> getDay now \<and> getDay now < 7"
proof -
  have a: "now - getDay now * msPerDay = now + (- getDay now) * msPerDay" by simp
  have "getDay (now - getDay now * msPerDay) = 0"
    unfolding a getDay_shift by simp
  moreover have "TimeWithinDay (now - getDay now * msPerDay) = TimeWithinDay now"
    unfolding a TimeWithinDay_def by (rule mod_mult_self1)
  ultimately show ?thesis
    by (simp add: getDeadline_eq getDay_range algebra_simps)
qed

theorem getDeadline_shifts_forward_witness:
  "inDateRange (20758 * msPerDay + 7 * msPerDay)
   \<and> inDateRange (20758 * msPerDay + 7 * msPerDay + 9 * msPerDay)
   \<and> getDay (20760 * msPerDay) = 2
   \<and> getDeadline (20760 * msPerDay) (newActivity 1 1 1 2 0) = 20774 * msPerDay"
proof -
  let ?now = "20760 * msPerDay" and ?r = "newActivity 1 1 1 2 0"
  have g: "getDay ?now = 2"
    by (simp add: getDay_def Day_def msPerDay_def)
  have w: "weekNumber ?r = 2"
    by (simp add: newActivity_def)
  have h1: "inDateRange ((?now - getDay ?now * msPerDay) + (weekNumber ?r - 1) * (7 * msPerDay))"
    by (simp only: g w) (simp add: inDateRange_def maxTime_def msPerDay_def)
  have h2: "inDateRange ((?now - getDay ?now * msPerDay) + (weekNumber ?r - 1) * (7 * msPerDay)
                       + 9 * msPerDay)"
    by (simp only: g w) (simp add: inDateRange_def maxTime_def msPerDay_def)
  from getDeadline_shifts_forward [OF h1 h2]
  have "getDeadline ?now ?r
     = (?now - getDay ?now * msPerDay) + (weekNumber ?r - 1) * (7 * msPerDay) + 9 * msPerDay"
    by blast
  then have "getDeadline ?now ?r = 20774 * msPerDay"
    by (simp only: g w) (simp add: msPerDay_def)
  moreover have "inDateRange (20758 * msPerDay + 7 * msPerDay)"
    and "inDateRange (20758 * msPerDay + 7 * msPerDay + 9 * msPerDay)"
    by (simp_all add: inDateRange_def maxTime_def msPerDay_def)
  ultimately show ?thesis using g by blast
qed

text \<open>
  C2 as the specification states it (the week start shifted \<^emph>\<open>back\<close>) fails. At
  midnight of Tuesday 3 November 2026 (day 20760) the current week starts on Sunday
  1 November; for week 2 the code answers Tuesday 17 November (day 20774), the
  specification Tuesday 3 November (day 20760).
\<close>

theorem getDeadline_not_shifted_back:
  "getDeadline (20760 * msPerDay) (newActivity 1 1 1 2 0) \<noteq> spec_deadline (20760 * msPerDay) 2"
  by (simp add: getDeadline_eq spec_deadline_def newActivity_def getDay_def Day_def msPerDay_def)

subsection \<open>C4: overdue on the instance\<close>

text \<open>
  C4. \<open>isOverdue\<close> is false whenever the submission timestamp is set, whatever the
  deadline; with no submission timestamp it is true exactly when the current time (the
  second clock reading) is after the deadline of the record's week (computed from the
  first clock reading, as \<open>getDeadline\<close> computes it).
\<close>

theorem isOverdue_iff:
  "isOverdue t1 t2 r = (submittedAt r = None \<and> t2 > getDeadline t1 r)"
  by (simp add: isOverdue_def getDeadline_def Let_def split: option.split)

subsection \<open>Rounding to a double\<close>

lemma expo_bounds:
  assumes "x \<noteq> 0"
  shows "2 powi expo x \<le> \<bar>x\<bar> \<and> \<bar>x\<bar> < 2 powi (expo x + 1)"
proof -
  obtain p q where pq: "quotient_of \<bar>x\<bar> = (p, q)" by (cases "quotient_of \<bar>x\<bar>")
  then have q: "0 < q" and x: "\<bar>x\<bar> = of_int p / of_int q"
    using quotient_of_denom_pos quotient_of_div by blast+
  from assms have "0 < \<bar>x\<bar>" by simp
  with x q have p: "0 < p"
    by (simp add: zero_less_divide_iff)
  let ?bp = "bitlen p" and ?bq = "bitlen q"
  from bitlen_bounds [OF p] have p1: "(2::int) ^ nat (?bp - 1) \<le> p" and p2: "p < 2 ^ nat ?bp" by blast+
  from bitlen_bounds [OF q] have q1: "(2::int) ^ nat (?bq - 1) \<le> q" and q2: "q < 2 ^ nat ?bq" by blast+
  have bp: "1 \<le> ?bp"
    using p bitlen_eq_zero_iff [of p] bitlen_nonneg [of p] by linarith
  have bq: "1 \<le> ?bq"
    using q bitlen_eq_zero_iff [of q] bitlen_nonneg [of q] by linarith
  have P1: "(2::rat) powi (?bp - 1) \<le> of_int p"
  proof -
    have "(2::rat) powi (?bp - 1) = of_int (2 ^ nat (?bp - 1))"
      using bp by (simp add: power_int_def)
    also have "\<dots> \<le> of_int p" using p1 by (simp only: of_int_le_iff)
    finally show ?thesis .
  qed
  have P2: "of_int p < (2::rat) powi ?bp"
  proof -
    have "(of_int p :: rat) < of_int (2 ^ nat ?bp)" using p2 by (simp only: of_int_less_iff)
    also have "\<dots> = (2::rat) powi ?bp" using bp by (simp add: power_int_def)
    finally show ?thesis .
  qed
  have Q1: "(2::rat) powi (?bq - 1) \<le> of_int q"
  proof -
    have "(2::rat) powi (?bq - 1) = of_int (2 ^ nat (?bq - 1))"
      using bq by (simp add: power_int_def)
    also have "\<dots> \<le> of_int q" using q1 by (simp only: of_int_le_iff)
    finally show ?thesis .
  qed
  have Q2: "of_int q < (2::rat) powi ?bq"
  proof -
    have "(of_int q :: rat) < of_int (2 ^ nat ?bq)" using q2 by (simp only: of_int_less_iff)
    also have "\<dots> = (2::rat) powi ?bq" using bq by (simp add: power_int_def)
    finally show ?thesis .
  qed
  let ?k = "?bp - ?bq"
  have qpos: "(0::rat) < of_int q" using q by simp
  have up: "\<bar>x\<bar> < 2 powi (?k + 1)"
  proof -
    have "of_int p < (2::rat) powi ?bp" by (rule P2)
    also have "\<dots> = 2 powi (?k + 1) * 2 powi (?bq - 1)"
      using power_int_add [of "2::rat" "?k + 1" "?bq - 1"] by simp
    also have "\<dots> \<le> 2 powi (?k + 1) * of_int q"
      using Q1 by (simp add: mult_left_mono)
    finally show ?thesis using qpos by (simp add: x pos_divide_less_eq)
  qed
  have lo: "2 powi (?k - 1) < \<bar>x\<bar>"
  proof -
    have "2 powi (?k - 1) * of_int q < 2 powi (?k - 1) * (2::rat) powi ?bq"
      using Q2 by (simp add: mult_strict_left_mono)
    also have "\<dots> = 2 powi (?bp - 1)"
      using power_int_add [of "2::rat" "?k - 1" "?bq"] by simp
    also have "\<dots> \<le> of_int p" by (rule P1)
    finally show ?thesis using qpos by (simp add: x pos_less_divide_eq)
  qed
  show ?thesis
  proof (cases "2 powi ?k \<le> \<bar>x\<bar>")
    case True
    then have "expo x = ?k" by (simp add: expo_def pq Let_def)
    with True up show ?thesis by simp
  next
    case False
    then have "expo x = ?k - 1" by (simp add: expo_def pq Let_def)
    with False lo show ?thesis by simp
  qed
qed

lemma expo_unique:
  assumes "x \<noteq> 0" and "2 powi e \<le> \<bar>x\<bar>" and "\<bar>x\<bar> < 2 powi (e + 1)"
  shows "expo x = e"
proof (rule ccontr)
  assume n: "expo x \<noteq> e"
  from expo_bounds [OF assms(1)]
  have b1: "2 powi expo x \<le> \<bar>x\<bar>" and b2: "\<bar>x\<bar> < 2 powi (expo x + 1)" by blast+
  show False
  proof (cases "expo x < e")
    case True
    then have "expo x + 1 \<le> e" by simp
    then have "(2::rat) powi (expo x + 1) \<le> 2 powi e"
      by (intro power_int_increasing) simp_all
    with b2 assms(2) show False by simp
  next
    case False
    with n have "e + 1 \<le> expo x" by simp
    then have "(2::rat) powi (e + 1) \<le> 2 powi expo x"
      by (intro power_int_increasing) simp_all
    with b1 assms(3) show False by simp
  qed
qed

lemma round53_at:
  assumes "x \<noteq> 0" and "2 powi e \<le> \<bar>x\<bar>" and "\<bar>x\<bar> < 2 powi (e + 1)"
  shows "round53 x = of_int (roundTiesToEven (x / 2 powi (e - 52))) * 2 powi (e - 52)"
  using assms(1) by (simp add: round53_def Let_def expo_unique [OF assms])




lemma roundTiesToEven_ratio:
  assumes "0 < d"
  shows "roundTiesToEven (of_int n / of_int d) = roundRatio n d"
proof -
  have f: "\<lfloor>(of_int n / of_int d :: rat)\<rfloor> = n div d"
    by (rule floor_divide_of_int_eq)
  have "(of_int n :: rat) = of_int (d * (n div d) + n mod d)"
    by simp
  then have "(of_int n :: rat) = of_int d * of_int (n div d) + of_int (n mod d)"
    by (simp only: of_int_add of_int_mult)
  then have y: "(of_int n / of_int d :: rat) - of_int (n div d) = of_int (n mod d) / of_int d"
    using assms by (simp add: field_simps)
  have a: "((of_int (n mod d) / of_int d :: rat) < 1 / 2) = (2 * (n mod d) < d)"
  proof -
    have "((of_int (n mod d) / of_int d :: rat) < 1 / 2) = ((of_int (2 * (n mod d)) :: rat) < of_int d)"
      using assms by (simp add: field_simps)
    then show ?thesis by (simp only: of_int_less_iff)
  qed
  have b: "(1 / 2 < (of_int (n mod d) / of_int d :: rat)) = (d < 2 * (n mod d))"
  proof -
    have "(1 / 2 < (of_int (n mod d) / of_int d :: rat)) = ((of_int d :: rat) < of_int (2 * (n mod d)))"
      using assms by (simp add: field_simps)
    then show ?thesis by (simp only: of_int_less_iff)
  qed
  show ?thesis
    by (simp only: roundTiesToEven_def roundRatio_def Let_def f y a b)
qed

text \<open>
  A quotient \<open>n / d\<close> with exponent \<open>52 - s\<close>, \<open>0 \<le> s\<close>, is rounded on the grid of the
  multiples of \<open>2 ^ - s\<close>.
\<close>

lemma round53_ratio:
  assumes "0 < n" and "0 < d" and "0 \<le> s"
    and "2 powi (52 - s) \<le> (of_int n / of_int d :: rat)"
    and "(of_int n / of_int d :: rat) < 2 powi (52 - s + 1)"
  shows "round53 (of_int n / of_int d) = of_int (roundRatio (n * 2 ^ nat s) d) / 2 ^ nat s"
proof -
  let ?x = "of_int n / of_int d :: rat"
  have pos: "0 < ?x" using assms(1,2) by simp
  have nz: "?x \<noteq> 0" using pos by (rule less_imp_neq [symmetric])
  have ab: "\<bar>?x\<bar> = ?x" using pos by (rule abs_of_pos)
  have u: "(2::rat) powi (- s) = 1 / 2 ^ nat s"
    using assms(3) by (simp add: power_int_def inverse_eq_divide power_one_over)
  have "round53 ?x = of_int (roundTiesToEven (?x / 2 powi (52 - s - 52))) * 2 powi (52 - s - 52)"
    using assms(4,5) by (intro round53_at [OF nz]) (simp_all only: ab)
  then have "round53 ?x = of_int (roundTiesToEven (?x / (1 / 2 ^ nat s))) * (1 / 2 ^ nat s)"
    by (simp add: u)
  also have "?x / (1 / 2 ^ nat s) = of_int (n * 2 ^ nat s) / of_int d"
    by simp
  also have "roundTiesToEven (of_int (n * 2 ^ nat s) / of_int d) = roundRatio (n * 2 ^ nat s) d"
    using assms(2) by (rule roundTiesToEven_ratio)
  finally show ?thesis by simp
qed

text \<open>The quotients and percentages that the statements below name.\<close>

lemma round53_sixth: "round53 (1 / 6) = 6004799503160661 / 36028797018963968"
  using round53_ratio [of 1 6 55] by (simp add: roundRatio_def Let_def)

lemma round53_third: "round53 (1 / 3) = 6004799503160661 / 18014398509481984"
  using round53_ratio [of 1 3 54] by (simp add: roundRatio_def Let_def)

lemma round53_half: "round53 (1 / 2) = 1 / 2"
  using round53_ratio [of 1 2 53] by (simp add: roundRatio_def Let_def)

lemma round53_two_thirds: "round53 (2 / 3) = 6004799503160661 / 9007199254740992"
  using round53_ratio [of 2 3 53] by (simp add: roundRatio_def Let_def)

lemma round53_three_quarters: "round53 (3 / 4) = 3 / 4"
  using round53_ratio [of 3 4 53] by (simp add: roundRatio_def Let_def)

lemma round53_five_sixths: "round53 (5 / 6) = 7505999378950827 / 9007199254740992"
  using round53_ratio [of 5 6 53] by (simp add: roundRatio_def Let_def)

lemma round53_one: "round53 1 = 1"
  using round53_ratio [of 1 1 52] by (simp add: roundRatio_def Let_def)

lemma percent_sixth: "round53 (round53 (1 / 6) * 100) = 2345624805922133 / 140737488355328"
  unfolding round53_sixth
  using round53_ratio [of 600479950316066100 36028797018963968 48]
  by (simp add: roundRatio_def Let_def)

lemma percent_third: "round53 (round53 (1 / 3) * 100) = 2345624805922133 / 70368744177664"
  unfolding round53_third
  using round53_ratio [of 600479950316066100 18014398509481984 47]
  by (simp add: roundRatio_def Let_def)

lemma percent_half: "round53 (round53 (1 / 2) * 100) = 50"
  unfolding round53_half
  using round53_ratio [of 50 1 47] by (simp add: roundRatio_def Let_def)

lemma percent_two_thirds: "round53 (round53 (2 / 3) * 100) = 2345624805922133 / 35184372088832"
  unfolding round53_two_thirds
  using round53_ratio [of 600479950316066100 9007199254740992 46]
  by (simp add: roundRatio_def Let_def)

lemma percent_three_quarters: "round53 (round53 (3 / 4) * 100) = 75"
  unfolding round53_three_quarters
  using round53_ratio [of 75 1 46] by (simp add: roundRatio_def Let_def)

lemma percent_five_sixths: "round53 (round53 (5 / 6) * 100) = 2932031007402667 / 35184372088832"
  unfolding round53_five_sixths
  using round53_ratio [of 750599937895082700 9007199254740992 46]
  by (simp add: roundRatio_def Let_def)

lemma percent_one: "round53 (round53 1 * 100) = 100"
  unfolding round53_one
  using round53_ratio [of 100 1 46] by (simp add: roundRatio_def Let_def)

lemmas percent_values = percent_sixth percent_third percent_half percent_two_thirds
  percent_three_quarters percent_five_sixths percent_one

lemma js_percent:
  "0 < b \<Longrightarrow> js_times (js_div a b) 100 = Num (round53 (round53 (of_nat a / of_nat b) * 100))"
  by (simp add: js_div_def)

lemma percent_of_six:
  assumes "c \<le> 6"
  shows "js_times (js_div c 6) 100
           = Num ([0, 2345624805922133 / 140737488355328, 2345624805922133 / 70368744177664, 50,
                   2345624805922133 / 35184372088832, 2932031007402667 / 35184372088832, 100] ! c)"
proof -
  from assms consider "c = 0" | "c = 1" | "c = 2" | "c = 3" | "c = 4" | "c = 5" | "c = 6"
    by linarith
  then show ?thesis
  proof cases
    case 1
    then show ?thesis by (simp add: js_percent round53_def)
  next
    case 2
    then show ?thesis by (simp add: js_percent percent_values)
  next
    case 3
    then show ?thesis by (simp add: js_percent percent_values)
  next
    case 4
    then show ?thesis by (simp add: js_percent percent_values)
  next
    case 5
    then show ?thesis by (simp add: js_percent percent_values)
  next
    case 6
    then show ?thesis by (simp add: js_percent percent_values)
  next
    case 7
    then show ?thesis by (simp add: js_percent percent_values)
  qed
qed

subsection \<open>C8: progress over the six task fields\<close>

lemma length_filter_Cons_of_bool:
  "length (filter P (x # xs)) = of_bool (P x) + length (filter P xs)"
  by simp

lemma count_six:
  "length (filter P [a, b, c, d, e, f])
     = of_bool (P a) + of_bool (P b) + of_bool (P c) + of_bool (P d) + of_bool (P e) + of_bool (P f)"
  by (simp only: length_filter_Cons_of_bool filter.simps list.size add.assoc) simp

text \<open>
  C8. \<open>getOverallProgress\<close> counts, over the six task fields, those equal to
  \<open>Done\<close>, to \<open>Pending\<close> and to \<open>Not Started\<close>; \<open>total\<close> is 6 and the completion
  percentage is \<open>completed / 6 * 100\<close> as the code computes it, in doubles: the quotient
  rounded, its product with 100 rounded. For 0 to 6 completed tasks these are the doubles
  0, 16.666666666666664, 33.33333333333333, 50, 66.66666666666666, 83.33333333333334 and
  100, given below by their exact values. With all six fields \<open>Not Started\<close> the result
  is 0, 0, 6, 6 and 0 percent.
\<close>

theorem getOverallProgress_counts:
  "completed (getOverallProgress r)
     = of_bool (formativeOneGrading r = ''Done'') + of_bool (formativeTwoGrading r = ''Done'')
       + of_bool (summativeGrading r = ''Done'') + of_bool (courseModeration r = ''Done'')
       + of_bool (intranetSync r = ''Done'') + of_bool (gradeBookStatus r = ''Done'')
   \<and> pending (getOverallProgress r)
     = of_bool (formativeOneGrading r = ''Pending'') + of_bool (formativeTwoGrading r = ''Pending'')
       + of_bool (summativeGrading r = ''Pending'') + of_bool (courseModeration r = ''Pending'')
       + of_bool (intranetSync r = ''Pending'') + of_bool (gradeBookStatus r = ''Pending'')
   \<and> notStarted (getOverallProgress r)
     = of_bool (formativeOneGrading r = ''Not Started'') + of_bool (formativeTwoGrading r = ''Not Started'')
       + of_bool (summativeGrading r = ''Not Started'') + of_bool (courseModeration r = ''Not Started'')
       + of_bool (intranetSync r = ''Not Started'') + of_bool (gradeBookStatus r = ''Not Started'')
   \<and> total (getOverallProgress r) = 6
   \<and> completionPercentage (getOverallProgress r)
     = Num (round53 (round53 (of_nat (completed (getOverallProgress r)) / 6) * 100))
   \<and> completionPercentage (getOverallProgress r)
     = Num ([0, 2345624805922133 / 140737488355328, 2345624805922133 / 70368744177664, 50,
             2345624805922133 / 35184372088832, 2932031007402667 / 35184372088832, 100]
            ! completed (getOverallProgress r))
   \<and> (formativeOneGrading r = ''Not Started'' \<and> formativeTwoGrading r = ''Not Started''
      \<and> summativeGrading r = ''Not Started'' \<and> courseModeration r = ''Not Started''
      \<and> intranetSync r = ''Not Started'' \<and> gradeBookStatus r = ''Not Started''
      \<longrightarrow> getOverallProgress r
          = \<lparr> completed = 0, pending = 0, notStarted = 6, total = 6,
              completionPercentage = Num 0 \<rparr>)"
proof -
  have t: "length (tasks r) = 6"
    by (simp add: tasks_def)
  have c: "\<And>s. length (filter (\<lambda>task. task = s) (tasks r))
     = of_bool (formativeOneGrading r = s) + of_bool (formativeTwoGrading r = s)
       + of_bool (summativeGrading r = s) + of_bool (courseModeration r = s)
       + of_bool (intranetSync r = s) + of_bool (gradeBookStatus r = s)"
    unfolding tasks_def by (rule count_six)
  have d: "completionPercentage (getOverallProgress r)
     = js_times (js_div (completed (getOverallProgress r)) 6) 100"
    by (simp add: getOverallProgress_def Let_def t)
  have p: "completionPercentage (getOverallProgress r)
     = Num (round53 (round53 (of_nat (completed (getOverallProgress r)) / 6) * 100))"
    unfolding d by (simp add: js_percent)
  have "completed (getOverallProgress r) \<le> length (tasks r)"
    by (simp add: getOverallProgress_def Let_def)
  then have l: "completed (getOverallProgress r) \<le> 6"
    by (simp only: t)
  have v: "completionPercentage (getOverallProgress r)
     = Num ([0, 2345624805922133 / 140737488355328, 2345624805922133 / 70368744177664, 50,
             2345624805922133 / 35184372088832, 2932031007402667 / 35184372088832, 100]
            ! completed (getOverallProgress r))"
    unfolding d using l by (rule percent_of_six)
  have n: "formativeOneGrading r = ''Not Started'' \<and> formativeTwoGrading r = ''Not Started''
      \<and> summativeGrading r = ''Not Started'' \<and> courseModeration r = ''Not Started''
      \<and> intranetSync r = ''Not Started'' \<and> gradeBookStatus r = ''Not Started''
      \<longrightarrow> getOverallProgress r
          = \<lparr> completed = 0, pending = 0, notStarted = 6, total = 6,
              completionPercentage = Num 0 \<rparr>"
    by (simp add: getOverallProgress_def Let_def t c js_div_def round53_def)
  have k: "completed (getOverallProgress r)
     = of_bool (formativeOneGrading r = ''Done'') + of_bool (formativeTwoGrading r = ''Done'')
       + of_bool (summativeGrading r = ''Done'') + of_bool (courseModeration r = ''Done'')
       + of_bool (intranetSync r = ''Done'') + of_bool (gradeBookStatus r = ''Done'')"
    and "pending (getOverallProgress r)
     = of_bool (formativeOneGrading r = ''Pending'') + of_bool (formativeTwoGrading r = ''Pending'')
       + of_bool (summativeGrading r = ''Pending'') + of_bool (courseModeration r = ''Pending'')
       + of_bool (intranetSync r = ''Pending'') + of_bool (gradeBookStatus r = ''Pending'')"
    and "notStarted (getOverallProgress r)
     = of_bool (formativeOneGrading r = ''Not Started'') + of_bool (formativeTwoGrading r = ''Not Started'')
       + of_bool (summativeGrading r = ''Not Started'') + of_bool (courseModeration r = ''Not Started'')
       + of_bool (intranetSync r = ''Not Started'') + of_bool (gradeBookStatus r = ''Not Started'')"
    and "total (getOverallProgress r) = 6"
    by (simp_all add: getOverallProgress_def Let_def t c)
  with p v n show ?thesis by blast
qed

theorem getOverallProgress_counts_witness:
  "getOverallProgress (newActivity 1 42 7 1 0)
     = \<lparr> completed = 0, pending = 0, notStarted = 6, total = 6, completionPercentage = Num 0 \<rparr>
   \<and> completionPercentage (getOverallProgress
        ((newActivity 1 42 7 1 0)\<lparr>formativeOneGrading := ''Done'', intranetSync := ''Done'',
                                  gradeBookStatus := ''Pending''\<rparr>))
       = Num (2345624805922133 / 70368744177664)"
proof -
  let ?r = "(newActivity 1 42 7 1 0)\<lparr>formativeOneGrading := ''Done'', intranetSync := ''Done'',
                                  gradeBookStatus := ''Pending''\<rparr>"
  have a: "getOverallProgress (newActivity 1 42 7 1 0)
     = \<lparr> completed = 0, pending = 0, notStarted = 6, total = 6, completionPercentage = Num 0 \<rparr>"
    using getOverallProgress_counts [of "newActivity 1 42 7 1 0"]
    by (simp add: newActivity_def)
  from getOverallProgress_counts [of ?r]
  have c: "completed (getOverallProgress ?r) = 2"
    by (simp add: newActivity_def)
  from getOverallProgress_counts [of ?r]
  have "completionPercentage (getOverallProgress ?r)
     = Num ([0, 2345624805922133 / 140737488355328, 2345624805922133 / 70368744177664, 50,
             2345624805922133 / 35184372088832, 2932031007402667 / 35184372088832, 100]
            ! completed (getOverallProgress ?r))"
    by blast
  then have "completionPercentage (getOverallProgress ?r) = Num (2345624805922133 / 70368744177664)"
    by (simp only: c) simp
  with a show ?thesis by blast
qed

subsection \<open>C9: the attendance rate\<close>

text \<open>
  C9. With no attendance array, or an empty one, \<open>getAttendanceRate\<close> returns 0; with a
  non-empty array it returns the number of \<open>true\<close> entries over the length, times 100, as
  the code computes it in doubles: the quotient rounded, its product with 100 rounded.
  The function has no throwing step, and the quotient is never the \<open>NaN\<close> or
  \<open>Infinity\<close> that JavaScript gives for a division by zero.
\<close>

theorem getAttendanceRate_guarded:
  "(attendance r = None \<or> attendance r = Some [] \<longrightarrow> getAttendanceRate r = Num 0)
   \<and> (\<forall>a. attendance r = Some a \<and> a \<noteq> [] \<longrightarrow>
         getAttendanceRate r
           = Num (round53 (round53 (of_nat (length (filter (\<lambda>day. day) a)) / of_nat (length a))
                           * 100)))
   \<and> getAttendanceRate r \<noteq> NaN \<and> getAttendanceRate r \<noteq> Infinity"
  by (auto simp add: getAttendanceRate_def js_div_def Let_def split: option.split)

theorem getAttendanceRate_guarded_witness:
  "getAttendanceRate ((newActivity 1 42 7 1 0)\<lparr>attendance := None\<rparr>) = Num 0
   \<and> getAttendanceRate ((newActivity 1 42 7 1 0)\<lparr>attendance := Some []\<rparr>) = Num 0
   \<and> getAttendanceRate ((newActivity 1 42 7 1 0)\<lparr>attendance := Some [True, False, True, True]\<rparr>) = Num 75
   \<and> getAttendanceRate ((newActivity 1 42 7 1 0)\<lparr>attendance := Some [True, False, False]\<rparr>)
       = Num (2345624805922133 / 70368744177664)"
  using getAttendanceRate_guarded [of "(newActivity 1 42 7 1 0)\<lparr>attendance := None\<rparr>"]
    getAttendanceRate_guarded [of "(newActivity 1 42 7 1 0)\<lparr>attendance := Some []\<rparr>"]
    getAttendanceRate_guarded [of "(newActivity 1 42 7 1 0)\<lparr>attendance := Some [True, False, True, True]\<rparr>"]
    getAttendanceRate_guarded [of "(newActivity 1 42 7 1 0)\<lparr>attendance := Some [True, False, False]\<rparr>"]
  by (simp add: newActivity_def percent_values)

subsection \<open>C3: the overdue scan\<close>

text \<open>
  C3. \<open>findOverdue\<close> returns exactly the records with no submission timestamp that
  were created more than 16 days before the current time, in the order of the table.
  The week number plays no part: changing the week numbers of the stored records in any
  way changes the week numbers of the answer and nothing else, so the deadline of a
  record's week is not consulted.
\<close>

theorem findOverdue_by_age:
  "findOverdue now d
     = filter (\<lambda>r. submittedAt r = None \<and> createdAt r + 16 * msPerDay < now) (activities d)
   \<and> findOverdue now (d\<lparr>activities := map (weekNumber_update f) (activities d)\<rparr>)
     = map (weekNumber_update f) (findOverdue now d)"
proof -
  have e: "setDate now (getDate now - 16) = now - 16 * msPerDay"
    using setDate_getDate_shift [of now "- 16"] by simp
  have l: "\<And>c::int. (c < now - 16 * msPerDay) = (c + 16 * msPerDay < now)"
    by auto
  show ?thesis
    by (simp add: findOverdue_def Let_def e l filter_map comp_def)
qed

subsection \<open>C7: the list of recent notifications\<close>

lemma lRange_prefix: "1 \<le> n \<Longrightarrow> lRange xs 0 (n - 1) = take (nat n) xs"
proof (cases "xs = []")
  case True
  then show ?thesis by (simp add: lRange_def)
next
  case False
  assume n: "1 \<le> n"
  from False have len: "0 < length xs" by simp
  show ?thesis
  proof (cases "n \<le> int (length xs)")
    case True
    then have "min (n - 1) (int (length xs) - 1) = n - 1" by simp
    with n len show ?thesis
      by (simp add: lRange_def Let_def)
  next
    case False
    then have m: "min (n - 1) (int (length xs) - 1) = int (length xs) - 1" by simp
    from False have "length xs \<le> nat n" by simp
    with n len show ?thesis
      by (simp add: lRange_def Let_def m)
  qed
qed

lemma recent_logNotification:
  "recent_notifications (logNotification now nd q)
     = take 100 (\<lparr> entry = nd, timestamp = now \<rparr> # recent_notifications q)"
  using lRange_prefix [of 100 "\<lparr> entry = nd, timestamp = now \<rparr> # recent_notifications q"]
  by (simp add: logNotification_def lTrim_def lPush_def Let_def)

lemma take_append_take: "take n (xs @ take n ys) = take n (xs @ ys)"
  by (simp add: min_def)

lemma recent_logAll:
  "length (recent_notifications q) \<le> 100 \<Longrightarrow>
   recent_notifications (logAll ws q) = take 100 (rev (map stamped ws) @ recent_notifications q)"
proof (induction ws arbitrary: q)
  case Nil
  then show ?case by simp
next
  case (Cons w ws)
  obtain now nd where w: "w = (now, nd)" by (cases w)
  have b: "length (recent_notifications (logNotification now nd q)) \<le> 100"
    by (simp add: recent_logNotification)
  have s: "\<lparr> entry = nd, timestamp = now \<rparr> = stamped w"
    by (simp add: w stamped_def)
  have "logAll (w # ws) q = logAll ws (logNotification now nd q)"
    by (simp add: w)
  then have "recent_notifications (logAll (w # ws) q)
      = take 100 (rev (map stamped ws) @ take 100 (stamped w # recent_notifications q))"
    by (simp only: Cons.IH [OF b] recent_logNotification s)
  also have "\<dots> = take 100 (rev (map stamped ws) @ stamped w # recent_notifications q)"
    by (rule take_append_take)
  finally show ?case by simp
qed

text \<open>
  C7. Starting from a list within its bound of 100 (the empty list, or any list that
  \<open>logNotification\<close> has left), and for every limit \<open>n\<close> of at least 1: after the
  notifications \<open>ws\<close> have been logged in this order, \<open>getRecentNotifications n\<close>
  returns the first \<open>n\<close> (at most 100) of them newest first, followed by what was there
  before; the retained list never has more than 100 entries, the oldest falling off; and
  an entry that has been logged is found at position \<open>k\<close> of the answer, \<open>k\<close> the number
  of entries logged after it, as long as \<open>k\<close> is below \<open>n\<close> and below 100.
\<close>

theorem logNotification_roundtrip:
  assumes "length (recent_notifications q) \<le> 100" and "1 \<le> n"
  shows "getRecentNotifications n (logAll ws q)
           = take (min (nat n) 100) (rev (map stamped ws) @ recent_notifications q)
       \<and> length (recent_notifications (logAll ws q)) \<le> 100
       \<and> (length later < nat n \<and> length later < 100 \<longrightarrow>
           length later < length (getRecentNotifications n (logAll ((now, nd) # later) q))
           \<and> getRecentNotifications n (logAll ((now, nd) # later) q) ! length later
               = \<lparr> entry = nd, timestamp = now \<rparr>)"
proof (intro conjI impI)
  have g: "\<And>ws. getRecentNotifications n (logAll ws q)
           = take (min (nat n) 100) (rev (map stamped ws) @ recent_notifications q)"
    by (simp only: getRecentNotifications_def lRange_prefix [OF assms(2)]
        recent_logAll [OF assms(1)] take_take)
  show "getRecentNotifications n (logAll ws q)
           = take (min (nat n) 100) (rev (map stamped ws) @ recent_notifications q)"
    by (rule g)
  show "length (recent_notifications (logAll ws q)) \<le> 100"
    using assms by (simp add: recent_logAll)
  assume l: "length later < nat n \<and> length later < 100"
  let ?xs = "rev (map stamped ((now, nd) # later)) @ recent_notifications q"
  have i: "?xs ! length later = \<lparr> entry = nd, timestamp = now \<rparr>"
    by (simp add: nth_append stamped_def)
  have k: "length later < length ?xs" by simp
  from l have m: "length later < min (nat n) 100" by simp
  have t: "take (min (nat n) 100) ?xs ! length later = ?xs ! length later"
    using m by (rule nth_take)
  show "length later < length (getRecentNotifications n (logAll ((now, nd) # later) q))"
    unfolding g using k m by (simp only: length_take min_less_iff_conj)
  show "getRecentNotifications n (logAll ((now, nd) # later) q) ! length later
               = \<lparr> entry = nd, timestamp = now \<rparr>"
    unfolding g using t i by (simp only:)
qed

theorem logNotification_roundtrip_witness:
  "getRecentNotifications 1
     (logAll [(5, emailNotification sampleMail ''failed'' None (Some ''timeout'')),
              (9, emailNotification sampleMail ''sent'' (Some ''id-1'') None)] emptyQueues)
     = [\<lparr> entry = emailNotification sampleMail ''sent'' (Some ''id-1'') None, timestamp = 9 \<rparr>]
   \<and> getRecentNotifications 20
     (logAll [(5, emailNotification sampleMail ''failed'' None (Some ''timeout'')),
              (9, emailNotification sampleMail ''sent'' (Some ''id-1'') None)] emptyQueues)
     = [\<lparr> entry = emailNotification sampleMail ''sent'' (Some ''id-1'') None, timestamp = 9 \<rparr>,
        \<lparr> entry = emailNotification sampleMail ''failed'' None (Some ''timeout''), timestamp = 5 \<rparr>]
   \<and> getRecentNotifications 20
     (logAll [(5, emailNotification sampleMail ''failed'' None (Some ''timeout'')),
              (9, emailNotification sampleMail ''sent'' (Some ''id-1'') None)] emptyQueues) ! 1
     = \<lparr> entry = emailNotification sampleMail ''failed'' None (Some ''timeout''), timestamp = 5 \<rparr>"
proof -
  have a: "length (recent_notifications emptyQueues) \<le> 100"
    by (simp add: emptyQueues_def)
  have b1: "(1::int) \<le> 1" and b: "(1::int) \<le> 20" by simp_all
  note r1 = logNotification_roundtrip [OF a b1, THEN conjunct1]
  note r20 = logNotification_roundtrip [OF a b, THEN conjunct1]
  note r3 = logNotification_roundtrip [OF a b, THEN conjunct2, THEN conjunct2,
      of "[(9, emailNotification sampleMail ''sent'' (Some ''id-1'') None)]" 5
         "emailNotification sampleMail ''failed'' None (Some ''timeout'')"]
  show ?thesis
    using r3 unfolding r1 r20 by (simp add: stamped_def emptyQueues_def)
qed

subsection \<open>C6: the fan-out of a manager alert\<close>

lemma queueEmail_appends:
  "queueEmail emailData options q = q\<lparr> emailQueue := emailQueue q @ [emailJob emailData options] \<rparr>"
  by (simp add: queueEmail_def emailJob_def Let_def)

lemma alertLoop_recognized:
  "alertMessage ty data = Some (subj, body) \<Longrightarrow>
   alertLoop ty data ms q
     = q\<lparr> emailQueue := emailQueue q @ map (\<lambda>m. emailJob (alertEmail m subj body) no_options) ms \<rparr>"
  by (induction ms arbitrary: q) (simp_all add: queueEmail_appends)

lemma alertMessage_recognized:
  "ty \<in> {''overdue-submission'', ''late-submission'', ''critical-deadline''} \<Longrightarrow>
   \<exists>subj body. alertMessage ty data = Some (subj, body)"
  by (auto simp add: alertMessage_def)

text \<open>
  C6. Take the job that \<open>queueManagerAlert\<close> puts on the alert queue, for one of the
  three alert types the processor knows. Processing it, with the store \<open>d\<close> and the
  queues \<open>q\<close> as they are at that time, appends to the email queue one \<open>send-email\<close>
  job for each active manager of \<open>d\<close>, in the order of the table, addressed to that
  manager and with the subject and text of the alert type; so exactly as many jobs as
  \<open>d\<close> has active managers. The job carries only type and data: the managers at the
  time of enqueueing play no part.
\<close>

theorem alertProcessor_fans_out:
  assumes "ty \<in> {''overdue-submission'', ''late-submission'', ''critical-deadline''}"
  shows "\<exists>subj body.
           alertMessage ty data = Some (subj, body)
         \<and> emailQueue (fst (alertProcessor now (last (alertQueue (queueManagerAlert ty data dly q0))) d q))
             = emailQueue q @ map (\<lambda>m. emailJob (alertEmail m subj body) no_options)
                                  (filter (\<lambda>m. isActive (user m)) (managers d))
         \<and> length (emailQueue (fst (alertProcessor now (last (alertQueue (queueManagerAlert ty data dly q0))) d q)))
             = length (emailQueue q) + length (filter (\<lambda>m. isActive (user m)) (managers d))
         \<and> map (\<lambda>j. (jname j, to_addr (jdata j)))
               (drop (length (emailQueue q))
                  (emailQueue (fst (alertProcessor now (last (alertQueue (queueManagerAlert ty data dly q0))) d q))))
             = map (\<lambda>m. (''send-email'', email (user m))) (filter (\<lambda>m. isActive (user m)) (managers d))
         \<and> snd (alertProcessor now (last (alertQueue (queueManagerAlert ty data dly q0))) d q) = Inr True"
proof -
  from alertMessage_recognized [OF assms]
  obtain sj bd where m: "alertMessage ty data = Some (sj, bd)" by blast
  have j: "jdata (last (alertQueue (queueManagerAlert ty data dly q0)))
             = \<lparr> alert_type = ty, alert_data = data \<rparr>"
    by (simp add: queueManagerAlert_def Let_def)
  have e: "emailQueue (fst (alertProcessor now (last (alertQueue (queueManagerAlert ty data dly q0))) d q))
             = emailQueue q @ map (\<lambda>m. emailJob (alertEmail m sj bd) no_options)
                                  (filter (\<lambda>m. isActive (user m)) (managers d))"
    by (simp add: alertProcessor_def Let_def j alertLoop_recognized [OF m] logNotification_def)
  have a: "\<And>m. (jname (emailJob (alertEmail m sj bd) no_options),
                  to_addr (jdata (emailJob (alertEmail m sj bd) no_options)))
               = (''send-email'', email (user m))"
    by (simp add: emailJob_def alertEmail_def)
  have s: "snd (alertProcessor now (last (alertQueue (queueManagerAlert ty data dly q0))) d q) = Inr True"
    by (simp add: alertProcessor_def Let_def)
  show ?thesis
    using m s by (simp add: e a comp_def)
qed

theorem alertProcessor_fans_out_witness:
  "length (emailQueue (fst (alertProcessor 0
       (last (alertQueue (queueManagerAlert ''overdue-submission''
          [(''count'', NumV 5), (''facilitators'', NumV 2)] 0 emptyQueues)))
       (sampleDb []) emptyQueues))) = 3
   \<and> map (\<lambda>j. (jname j, to_addr (jdata j)))
       (emailQueue (fst (alertProcessor 0
          (last (alertQueue (queueManagerAlert ''overdue-submission''
             [(''count'', NumV 5), (''facilitators'', NumV 2)] 0 emptyQueues)))
          (sampleDb []) emptyQueues)))
     = [(''send-email'', ''m1@example.org''), (''send-email'', ''m2@example.org''),
        (''send-email'', ''m4@example.org'')]"
proof -
  have m: "''overdue-submission'' \<in> {''overdue-submission'', ''late-submission'', ''critical-deadline''}"
    by simp
  from alertProcessor_fans_out [OF m, where data = "[(''count'', NumV 5), (''facilitators'', NumV 2)]"
      and now = 0 and dly = 0 and d = "sampleDb []" and ?q0.0 = emptyQueues and q = emptyQueues]
  obtain sj bd where
    "emailQueue (fst (alertProcessor 0
       (last (alertQueue (queueManagerAlert ''overdue-submission''
          [(''count'', NumV 5), (''facilitators'', NumV 2)] 0 emptyQueues)))
       (sampleDb []) emptyQueues))
     = emailQueue emptyQueues @ map (\<lambda>m. emailJob (alertEmail m sj bd) no_options)
         (filter (\<lambda>m. isActive (user m)) (managers (sampleDb [])))"
    by blast
  then show ?thesis
    by (simp add: sampleDb_def sampleUser_def emptyQueues_def emailJob_def alertEmail_def)
qed

subsection \<open>C1: an email job whose attempts all fail\<close>

lemma js_or_pos: "0 < d \<Longrightarrow> 0 < js_or x d"
  by (simp add: js_or_def split: option.split)

lemma emailProcessor_failure:
  assumes "sendMail (mailOptions env (jdata jb)) = Inl e"
  shows "emailProcessor env sendMail now jb q
           = (logNotification now (emailNotification (jdata jb) ''failed'' None (Some e)) q, Inl e)"
  using assms by (simp add: emailProcessor_def Let_def)

lemma notification_log_logNotification:
  "notification_log (logNotification now nd q) = \<lparr> entry = nd, timestamp = now \<rparr> # notification_log q"
  by (simp add: logNotification_def Let_def)

lemma runEmailAttempts_all_fail:
  assumes "\<forall>k. made \<le> k \<and> k \<le> made + left \<longrightarrow> isl (sendMail k (mailOptions env (jdata jb)))"
  shows "\<exists>q'. runEmailAttempts env sendMail clock jb made left q = (q', Failed, Suc (made + left))
           \<and> notification_log q'
               = map (\<lambda>k. \<lparr> entry = emailNotification (jdata jb) ''failed'' None
                                      (Some (projl (sendMail k (mailOptions env (jdata jb))))),
                             timestamp = clock k \<rparr>)
                     (rev [made ..< Suc (made + left)])
                 @ notification_log q"
  using assms
proof (induction left arbitrary: made q)
  case 0
  then have "isl (sendMail made (mailOptions env (jdata jb)))" by simp
  then obtain e where e: "sendMail made (mailOptions env (jdata jb)) = Inl e"
    by (cases "sendMail made (mailOptions env (jdata jb))") simp_all
  show ?case
    by (simp add: emailProcessor_failure [where sendMail = "sendMail made", OF e] notification_log_logNotification e)
next
  case (Suc left)
  then have "isl (sendMail made (mailOptions env (jdata jb)))" by simp
  then obtain e where e: "sendMail made (mailOptions env (jdata jb)) = Inl e"
    by (cases "sendMail made (mailOptions env (jdata jb))") simp_all
  let ?q1 = "logNotification (clock made) (emailNotification (jdata jb) ''failed'' None (Some e)) q"
  have "\<forall>k. Suc made \<le> k \<and> k \<le> Suc made + left \<longrightarrow> isl (sendMail k (mailOptions env (jdata jb)))"
    using Suc.prems by simp
  from Suc.IH [OF this, of ?q1]
  obtain q' where r: "runEmailAttempts env sendMail clock jb (Suc made) left ?q1
                        = (q', Failed, Suc (Suc made + left))"
    and l: "notification_log q'
               = map (\<lambda>k. \<lparr> entry = emailNotification (jdata jb) ''failed'' None
                                      (Some (projl (sendMail k (mailOptions env (jdata jb))))),
                             timestamp = clock k \<rparr>)
                     (rev [Suc made ..< Suc (Suc made + left)])
                 @ notification_log ?q1"
    by blast
  have u: "[made ..< Suc (made + Suc left)] = made # [Suc made ..< Suc (Suc made + left)]"
    by (simp add: upt_conv_Cons)
  have "runEmailAttempts env sendMail clock jb made (Suc left) q = (q', Failed, Suc (made + Suc left))"
    using r by (simp add: emailProcessor_failure [where sendMail = "sendMail made", OF e])
  moreover have "notification_log q'
               = map (\<lambda>k. \<lparr> entry = emailNotification (jdata jb) ''failed'' None
                                      (Some (projl (sendMail k (mailOptions env (jdata jb))))),
                             timestamp = clock k \<rparr>)
                     (rev [made ..< Suc (made + Suc left)])
                 @ notification_log q"
    unfolding u l by (simp add: notification_log_logNotification e)
  ultimately show ?case by blast
qed


lemma last_queueEmail:
  "last (emailQueue (queueEmail emailData options q0)) = emailJob emailData options"
  by (simp add: queueEmail_def emailJob_def Let_def)

text \<open>
  C1, as the code has it. Take the job that \<open>queueEmail\<close> puts on the email queue; its
  number of attempts is the option \<open>attempts\<close>, or 3 when the option is absent or 0. If
  the transport fails at every one of these attempts, the run of the job ends in the
  failed state after exactly that many runs of the processor and no more, and every
  failed attempt has written one \<open>failed\<close> entry for the job, with the error of that
  attempt: as many \<open>failed\<close> entries as attempts, the newest first, and no \<open>sent\<close>
  entry.
\<close>

theorem emailJob_exhausts_attempts:
  assumes "\<forall>k < js_or (opt_attempts options) 3. isl (sendMail k (mailOptions env emailData))"
  shows "\<exists>q'. runEmailJob env sendMail clock (last (emailQueue (queueEmail emailData options q0))) q
              = (q', Failed, js_or (opt_attempts options) 3)
         \<and> notification_log q'
              = map (\<lambda>k. \<lparr> entry = emailNotification emailData ''failed'' None
                                     (Some (projl (sendMail k (mailOptions env emailData)))),
                            timestamp = clock k \<rparr>)
                    (rev [0 ..< js_or (opt_attempts options) 3])
                @ notification_log q
         \<and> length (logged ''failed'' q') = length (logged ''failed'' q) + js_or (opt_attempts options) 3
         \<and> logged ''sent'' q' = logged ''sent'' q"
proof -
  let ?n = "js_or (opt_attempts options) 3"
  let ?jb = "emailJob emailData options"
  have pos: "0 < ?n" by (rule js_or_pos) simp
  have a: "attempts (jopts ?jb) = ?n" and d: "jdata ?jb = emailData"
    by (simp_all add: emailJob_def)
  have h: "\<forall>k. 0 \<le> k \<and> k \<le> 0 + (?n - 1) \<longrightarrow> isl (sendMail k (mailOptions env (jdata ?jb)))"
    using assms pos by (simp add: d)
  from runEmailAttempts_all_fail [where sendMail = sendMail and env = env and jb = ?jb
      and made = 0 and left = "?n - 1" and clock = clock and q = q, OF h]
  obtain q' where r: "runEmailAttempts env sendMail clock ?jb 0 (?n - 1) q = (q', Failed, Suc (0 + (?n - 1)))"
    and l: "notification_log q'
               = map (\<lambda>k. \<lparr> entry = emailNotification (jdata ?jb) ''failed'' None
                                      (Some (projl (sendMail k (mailOptions env (jdata ?jb))))),
                             timestamp = clock k \<rparr>)
                     (rev [0 ..< Suc (0 + (?n - 1))])
                 @ notification_log q"
    by blast
  have s: "Suc (0 + (?n - 1)) = ?n" using pos by simp
  have r': "runEmailJob env sendMail clock (last (emailQueue (queueEmail emailData options q0))) q
              = (q', Failed, ?n)"
    using r by (simp only: runEmailJob_def last_queueEmail a s)
  have l': "notification_log q'
              = map (\<lambda>k. \<lparr> entry = emailNotification emailData ''failed'' None
                                     (Some (projl (sendMail k (mailOptions env emailData)))),
                            timestamp = clock k \<rparr>)
                    (rev [0 ..< ?n])
                @ notification_log q"
    using l by (simp only: d s)
  have f: "length (logged ''failed'' q') = length (logged ''failed'' q) + ?n"
    by (simp add: logged_def l' emailNotification_def filter_map comp_def)
  have t: "logged ''sent'' q' = logged ''sent'' q"
    by (simp add: logged_def l' emailNotification_def filter_map comp_def)
  show ?thesis using r' l' f t by blast
qed

theorem emailJob_exhausts_attempts_witness:
  "runEmailJob None (\<lambda>k m. Inl ''ECONNREFUSED'') (\<lambda>k. 1000 * int k)
      (last (emailQueue (queueEmail sampleMail \<lparr> opt_delay = None, opt_attempts = Some 2 \<rparr> emptyQueues)))
      emptyQueues
    = (\<lparr> emailQueue = [], alertQueue = [],
         notification_log =
           [\<lparr> entry = emailNotification sampleMail ''failed'' None (Some ''ECONNREFUSED''), timestamp = 1000 \<rparr>,
            \<lparr> entry = emailNotification sampleMail ''failed'' None (Some ''ECONNREFUSED''), timestamp = 0 \<rparr>],
         recent_notifications =
           [\<lparr> entry = emailNotification sampleMail ''failed'' None (Some ''ECONNREFUSED''), timestamp = 1000 \<rparr>,
            \<lparr> entry = emailNotification sampleMail ''failed'' None (Some ''ECONNREFUSED''), timestamp = 0 \<rparr>] \<rparr>,
       Failed, 2)"
proof -
  have h: "\<forall>k < js_or (opt_attempts \<lparr> opt_delay = None, opt_attempts = Some 2 \<rparr>) 3.
          isl ((\<lambda>k m. Inl ''ECONNREFUSED'' :: string + string) k (mailOptions None sampleMail))"
    by simp
  from emailJob_exhausts_attempts [where sendMail = "\<lambda>k m. Inl ''ECONNREFUSED''" and env = None
      and emailData = sampleMail and options = "\<lparr> opt_delay = None, opt_attempts = Some 2 \<rparr>"
      and clock = "\<lambda>k. 1000 * int k" and ?q0.0 = emptyQueues and q = emptyQueues, OF h]
  obtain q' where "runEmailJob None (\<lambda>k m. Inl ''ECONNREFUSED'') (\<lambda>k. 1000 * int k)
      (last (emailQueue (queueEmail sampleMail \<lparr> opt_delay = None, opt_attempts = Some 2 \<rparr> emptyQueues)))
      emptyQueues = (q', Failed, js_or (opt_attempts \<lparr> opt_delay = None, opt_attempts = Some 2 \<rparr>) 3)"
    by blast
  moreover have "fst (runEmailJob None (\<lambda>k m. Inl ''ECONNREFUSED'') (\<lambda>k. 1000 * int k)
      (last (emailQueue (queueEmail sampleMail \<lparr> opt_delay = None, opt_attempts = Some 2 \<rparr> emptyQueues)))
      emptyQueues) = \<lparr> emailQueue = [], alertQueue = [],
         notification_log =
           [\<lparr> entry = emailNotification sampleMail ''failed'' None (Some ''ECONNREFUSED''), timestamp = 1000 \<rparr>,
            \<lparr> entry = emailNotification sampleMail ''failed'' None (Some ''ECONNREFUSED''), timestamp = 0 \<rparr>],
         recent_notifications =
           [\<lparr> entry = emailNotification sampleMail ''failed'' None (Some ''ECONNREFUSED''), timestamp = 1000 \<rparr>,
            \<lparr> entry = emailNotification sampleMail ''failed'' None (Some ''ECONNREFUSED''), timestamp = 0 \<rparr>] \<rparr>"
    by (simp add: runEmailJob_def last_queueEmail emailJob_def js_or_def emailProcessor_def
        logNotification_def lTrim_def lPush_def lRange_def emptyQueues_def Let_def eval_nat_numeral)
  ultimately show ?thesis by (simp add: js_or_def)
qed

text \<open>
  C1 as the specification states it (exactly one \<open>failed\<close> entry for the job) fails:
  with the default of 3 attempts and a transport that always refuses the connection,
  the log that was empty holds three \<open>failed\<close> entries when the job has failed.
\<close>

theorem emailJob_logs_every_failed_attempt:
  "length (logged ''failed'' (fst (runEmailJob None (\<lambda>k m. Inl ''ECONNREFUSED'') (\<lambda>k. 1000 * int k)
      (last (emailQueue (queueEmail sampleMail no_options emptyQueues))) emptyQueues))) = 3
   \<and> length (logged ''failed'' (fst (runEmailJob None (\<lambda>k m. Inl ''ECONNREFUSED'') (\<lambda>k. 1000 * int k)
      (last (emailQueue (queueEmail sampleMail no_options emptyQueues))) emptyQueues))) \<noteq> 1"
  by (simp add: runEmailJob_def last_queueEmail emailJob_def js_or_def emailProcessor_def no_options_def
        logNotification_def lTrim_def lPush_def lRange_def emptyQueues_def Let_def eval_nat_numeral
        logged_def emailNotification_def)

subsection \<open>The submit endpoint\<close>

lemma isOverdue_unsubmitted:
  "submittedAt r = None \<Longrightarrow> isOverdue t1 t2 r = (getDeadline t1 r < t2)"
  by (simp add: isOverdue_def getDeadline_def Let_def)

lemma find_Some_pred: "find P xs = Some x \<Longrightarrow> P x"
  by (induction xs) (auto split: if_splits)

lemma find_map_replace:
  "find (\<lambda>x. key x = k) xs = Some a \<Longrightarrow> key b = k \<Longrightarrow>
   find (\<lambda>x. key x = k) (map (\<lambda>x. if key x = k then b else x) xs) = Some b"
  by (induction xs) (auto split: if_splits)

lemma isOverdue_after_submit: "\<not> isOverdue t1 t2 (fst (submit now tsave a d))"
  by (simp add: isOverdue_def submit_def save_def submit_field_def Let_def)

lemma submitHandler_queues: "snd (snd (submitHandler req now tsave t1 t2 d q)) = q"
proof -
  have "\<And>a a' d'. submit now tsave a d = (a', d') \<Longrightarrow> \<not> isOverdue t1 t2 a'"
    using isOverdue_after_submit by (metis fst_conv)
  then show ?thesis
    by (auto simp add: submitHandler_def split: option.split sum.split prod.split bool.split)
qed

text \<open>
  C5. A request to the submit endpoint for a record whose submission timestamp is
  already set never reaches \<open>submit\<close>: whoever asks, the store and the queues are left
  as they were, so the record and its \<open>submittedAt\<close> are unchanged. A request that gets
  as far as the duplicate check, that is one that passes the role check of the route
  and the ownership check of the handler (a manager, or the facilitator who owns the
  record), is answered with 400 and the duplicate-submission error. \<open>submit\<close> itself
  has no such guard: called on the submitted record it sets the timestamp to the new
  time and stores that, so a second call at another time changes the record.
\<close>

theorem submitRoute_rejects_resubmission:
  assumes "findByPk pk (activities d) (params_id req) = Some a" and "submittedAt a = Some s"
  shows "snd (submitRoute req now tsave t1 t2 d q) = (d, q)
       \<and> (authorize [''facilitator'', ''manager''] req = None \<and> notOwner req a = Inr False
          \<longrightarrow> submitRoute req now tsave t1 t2 d q
                = (Inr \<lparr> status = 400, message = ''Activity log has already been submitted'',
                         body_data = None \<rparr>, d, q))
       \<and> (user_role req = ''manager''
            \<or> user_role req = ''facilitator'' \<and> facilitatorProfile req = Some (facilitatorId a)
          \<longrightarrow> authorize [''facilitator'', ''manager''] req = None \<and> notOwner req a = Inr False)
       \<and> submittedAt (fst (submit now tsave a d)) = Some now
       \<and> (now \<noteq> s \<longrightarrow> submittedAt (fst (submit now tsave a d)) \<noteq> submittedAt a)
       \<and> findByPk pk (activities (snd (submit now tsave a d))) (params_id req)
           = Some (a\<lparr>submittedAt := Some now, updatedAt := tsave\<rparr>)"
proof -
  have k: "pk a = params_id req"
    using assms(1) unfolding findByPk_def by (rule find_Some_pred)
  have "findByPk pk (activities (snd (submit now tsave a d))) (params_id req)
           = Some (a\<lparr>submittedAt := Some now, updatedAt := tsave\<rparr>)"
    using assms(1) k
    by (simp add: submit_def save_def submit_field_def Let_def findByPk_def find_map_replace)
  moreover have "submittedAt (fst (submit now tsave a d)) = Some now"
    by (simp add: submit_def save_def submit_field_def Let_def)
  moreover have "now \<noteq> s \<longrightarrow> submittedAt (fst (submit now tsave a d)) \<noteq> submittedAt a"
    using assms(2) by (simp add: submit_def save_def submit_field_def Let_def)
  moreover have "snd (submitRoute req now tsave t1 t2 d q) = (d, q)"
    using assms
    by (simp add: submitRoute_def submitHandler_def authorize_def notOwner_def
        split: option.split sum.split bool.split)
  moreover have "authorize [''facilitator'', ''manager''] req = None \<and> notOwner req a = Inr False
          \<longrightarrow> submitRoute req now tsave t1 t2 d q
                = (Inr \<lparr> status = 400, message = ''Activity log has already been submitted'',
                         body_data = None \<rparr>, d, q)"
    using assms by (simp add: submitRoute_def submitHandler_def)
  moreover have "user_role req = ''manager''
            \<or> user_role req = ''facilitator'' \<and> facilitatorProfile req = Some (facilitatorId a)
          \<longrightarrow> authorize [''facilitator'', ''manager''] req = None \<and> notOwner req a = Inr False"
    by (auto simp add: authorize_def notOwner_def)
  ultimately show ?thesis by blast
qed

theorem submitRoute_rejects_resubmission_witness:
  "submitRoute \<lparr> user_role = ''manager'', facilitatorProfile = None, params_id = 1 \<rparr> 100 101 102 103
      (sampleDb [(newActivity 1 42 7 1 0)\<lparr>submittedAt := Some 50\<rparr>]) emptyQueues
    = (Inr \<lparr> status = 400, message = ''Activity log has already been submitted'', body_data = None \<rparr>,
       sampleDb [(newActivity 1 42 7 1 0)\<lparr>submittedAt := Some 50\<rparr>], emptyQueues)
   \<and> submitRoute \<lparr> user_role = ''facilitator'', facilitatorProfile = Some 7, params_id = 1 \<rparr>
      100 101 102 103
      (sampleDb [(newActivity 1 42 7 1 0)\<lparr>submittedAt := Some 50\<rparr>]) emptyQueues
    = (Inr \<lparr> status = 400, message = ''Activity log has already been submitted'', body_data = None \<rparr>,
       sampleDb [(newActivity 1 42 7 1 0)\<lparr>submittedAt := Some 50\<rparr>], emptyQueues)
   \<and> submittedAt (fst (submit 100 101 ((newActivity 1 42 7 1 0)\<lparr>submittedAt := Some 50\<rparr>)
        (sampleDb [(newActivity 1 42 7 1 0)\<lparr>submittedAt := Some 50\<rparr>]))) = Some 100"
proof -
  let ?a = "(newActivity 1 42 7 1 0)\<lparr>submittedAt := Some 50\<rparr>"
  let ?m = "\<lparr> user_role = ''manager'', facilitatorProfile = None, params_id = 1 \<rparr>"
  let ?f = "\<lparr> user_role = ''facilitator'', facilitatorProfile = Some 7, params_id = 1 \<rparr>"
  have fm: "findByPk pk (activities (sampleDb [?a])) (params_id ?m) = Some ?a"
    by (simp add: findByPk_def sampleDb_def newActivity_def)
  have ff: "findByPk pk (activities (sampleDb [?a])) (params_id ?f) = Some ?a"
    by (simp add: findByPk_def sampleDb_def newActivity_def)
  have s: "submittedAt ?a = Some 50"
    by simp
  have rm: "user_role ?m = ''manager''"
    by simp
  have rf: "user_role ?f = ''facilitator'' \<and> facilitatorProfile ?f = Some (facilitatorId ?a)"
    by (simp add: newActivity_def)
  from submitRoute_rejects_resubmission [OF fm s, of 100 101 102 103 emptyQueues] rm
  have "submitRoute ?m 100 101 102 103 (sampleDb [?a]) emptyQueues
          = (Inr \<lparr> status = 400, message = ''Activity log has already been submitted'',
                   body_data = None \<rparr>, sampleDb [?a], emptyQueues)"
    and "submittedAt (fst (submit 100 101 ?a (sampleDb [?a]))) = Some 100"
    by blast+
  moreover from submitRoute_rejects_resubmission [OF ff s, of 100 101 102 103 emptyQueues] rf
  have "submitRoute ?f 100 101 102 103 (sampleDb [?a]) emptyQueues
          = (Inr \<lparr> status = 400, message = ''Activity log has already been submitted'',
                   body_data = None \<rparr>, sampleDb [?a], emptyQueues)"
    by blast
  ultimately show ?thesis by blast
qed

text \<open>
  C10. The submit endpoint never enqueues a manager alert: whatever the request, the
  clock readings and the store, the queues after the route are the queues before. The
  branch that would enqueue the \<open>late-submission\<close> alert is guarded by \<open>isOverdue\<close> on
  the record that \<open>submit\<close> has just stamped, and that is false at every pair of clock
  readings, also after the deadline of the record's week.
\<close>

theorem submitRoute_never_alerts:
  "snd (snd (submitRoute req now tsave t1 t2 d q)) = q
   \<and> alertQueue (snd (snd (submitRoute req now tsave t1 t2 d q))) = alertQueue q
   \<and> \<not> isOverdue t1 t2 (fst (submit now tsave a d))"
  by (simp add: submitRoute_def submitHandler_queues isOverdue_after_submit split: option.split)

theorem submitRoute_never_alerts_witness:
  "isOverdue (20760 * msPerDay) (20760 * msPerDay) (newActivity 1 42 7 (- 2) 0)
   \<and> getDeadline (20760 * msPerDay) (newActivity 1 42 7 (- 2) 0) < 20760 * msPerDay
   \<and> alertQueue (snd (snd (submitRoute
        \<lparr> user_role = ''facilitator'', facilitatorProfile = Some 7, params_id = 1 \<rparr>
        (20760 * msPerDay) (20760 * msPerDay) (20760 * msPerDay) (20760 * msPerDay)
        (sampleDb [newActivity 1 42 7 (- 2) 0]) emptyQueues))) = []
   \<and> (case fst (submitRoute
        \<lparr> user_role = ''facilitator'', facilitatorProfile = Some 7, params_id = 1 \<rparr>
        (20760 * msPerDay) (20760 * msPerDay) (20760 * msPerDay) (20760 * msPerDay)
        (sampleDb [newActivity 1 42 7 (- 2) 0]) emptyQueues) of
         Inr resp \<Rightarrow> status resp = 200 | Inl e \<Rightarrow> False)"
proof -
  let ?T = "20760 * msPerDay"
  let ?req = "\<lparr> user_role = ''facilitator'', facilitatorProfile = Some 7, params_id = 1 \<rparr>"
  let ?d = "sampleDb [newActivity 1 42 7 (- 2) 0]"
  have g: "getDeadline ?T (newActivity 1 42 7 (- 2) 0) < ?T"
    by (simp add: getDeadline_eq newActivity_def getDay_def Day_def msPerDay_def)
  then have o: "isOverdue ?T ?T (newActivity 1 42 7 (- 2) 0)"
    by (simp add: isOverdue_unsubmitted newActivity_def)
  have q: "alertQueue (snd (snd (submitRoute ?req ?T ?T ?T ?T ?d emptyQueues))) = []"
    using submitRoute_never_alerts [of ?req ?T ?T ?T ?T ?d emptyQueues]
    by (simp add: emptyQueues_def)
  have r: "(case fst (submitRoute ?req ?T ?T ?T ?T ?d emptyQueues) of
         Inr resp \<Rightarrow> status resp = 200 | Inl e \<Rightarrow> False)"
    by (simp add: submitRoute_def submitHandler_def authorize_def notOwner_def findByPk_def
      sampleDb_def newActivity_def submitted_response_def submit_def save_def submit_field_def
      isOverdue_def Let_def)
  show ?thesis using g o q r by blast
qed

end
